theory Spec2Isabelle
  imports Main "HOL-Library.Word" "HOL-Library.Multiset"
begin

section \<open>Common types\<close>

text \<open>
  The C++ source works on \<open>size_t\<close> (64-bit unsigned) indices; they are modelled as
  \<open>64 word\<close>, so \<open>prior_num_rows - 1\<close> and every \<open>++\<close> wrap as in the code.
\<close>

type_synonym size_t = "64 word"

text \<open>
  Every exception and assertion of the source is a value of \<open>error\<close>.
  \<open>SchemaMismatch\<close> is the \<open>std::runtime_error\<close> of \<open>schema_error()\<close>,
  \<open>AssertionFailed\<close> a failed \<open>REALM_ASSERT\<close>, \<open>VectorOutOfRange\<close> an access of
  \<open>m_changes\<close> past its size, \<open>BadTransactLog\<close> the log parser's reaction to a handler
  that returned \<open>false\<close>, \<open>MismatchedConfig\<close> the \<open>MismatchedConfigException\<close>,
  \<open>FileAccessError\<close> the \<open>RealmFileException\<close> of kind \<open>AccessError\<close>,
  \<open>OpenFailed\<close> any exception of opening a handle or a helper shared group, and
  \<open>NullPointer\<close> the use of a helper shared group that is not there.
\<close>

datatype error =
    SchemaMismatch
  | AssertionFailed
  | VectorOutOfRange
  | BadTransactLog
  | MismatchedConfig
  | FileAccessError
  | OpenFailed
  | NullPointer

text \<open>
  A log handler returns a \<open>bool\<close> and may update the handler object, or throws.
\<close>

type_synonym 's handled = "error + (bool \<times> 's)"

section \<open>TransactLogValidator\<close>

record TransactLogValidator =
  m_current_table :: size_t
  m_new_tables :: "size_t list"

definition schema_error :: "error + 'a" where
  "schema_error = Inl SchemaMismatch"

definition schema_error_unless_new_table ::
  "'a TransactLogValidator_scheme \<Rightarrow> 'a TransactLogValidator_scheme handled" where
  "schema_error_unless_new_table v =
     (if m_current_table v \<notin> set (m_new_tables v) then schema_error else Inr (True, v))"

definition current_table :: "'a TransactLogValidator_scheme \<Rightarrow> size_t" where
  "current_table v = m_current_table v"

definition add_search_index :: "size_t \<Rightarrow> 'a TransactLogValidator_scheme \<Rightarrow> 'a TransactLogValidator_scheme handled" where
  "add_search_index c v = Inr (True, v)"

definition remove_search_index :: "size_t \<Rightarrow> 'a TransactLogValidator_scheme \<Rightarrow> 'a TransactLogValidator_scheme handled" where
  "remove_search_index c v = Inr (True, v)"

text \<open>
  \<open>insert_group_level_table\<close> of the validator: the loop increments each recorded index
  that is \<open>\<ge> table_ndx\<close>, then \<open>push_back(table_ndx)\<close>.
\<close>

definition validator_insert_group_level_table ::
  "size_t \<Rightarrow> size_t \<Rightarrow> string \<Rightarrow> 'a TransactLogValidator_scheme \<Rightarrow> 'a TransactLogValidator_scheme handled" where
  "validator_insert_group_level_table table_ndx num_tables name v =
     Inr (True, v\<lparr>m_new_tables :=
       map (\<lambda>table. if table \<ge> table_ndx then table + 1 else table) (m_new_tables v) @ [table_ndx]\<rparr>)"

definition insert_column :: "size_t \<Rightarrow> string \<Rightarrow> bool \<Rightarrow> 'a TransactLogValidator_scheme \<Rightarrow> 'a TransactLogValidator_scheme handled" where
  "insert_column c name nullable v = schema_error_unless_new_table v"

definition insert_link_column :: "size_t \<Rightarrow> string \<Rightarrow> size_t \<Rightarrow> size_t \<Rightarrow> 'a TransactLogValidator_scheme \<Rightarrow> 'a TransactLogValidator_scheme handled" where
  "insert_link_column c name t bc v = schema_error_unless_new_table v"

definition add_primary_key :: "size_t \<Rightarrow> 'a TransactLogValidator_scheme \<Rightarrow> 'a TransactLogValidator_scheme handled" where
  "add_primary_key c v = schema_error_unless_new_table v"

definition set_link_type :: "size_t \<Rightarrow> 'a TransactLogValidator_scheme \<Rightarrow> 'a TransactLogValidator_scheme handled" where
  "set_link_type c v = schema_error_unless_new_table v"

definition erase_group_level_table :: "size_t \<Rightarrow> size_t \<Rightarrow> 'a TransactLogValidator_scheme \<Rightarrow> 'a TransactLogValidator_scheme handled" where
  "erase_group_level_table t n v = schema_error"

definition rename_group_level_table :: "size_t \<Rightarrow> string \<Rightarrow> 'a TransactLogValidator_scheme \<Rightarrow> 'a TransactLogValidator_scheme handled" where
  "rename_group_level_table t name v = schema_error"

definition erase_column :: "size_t \<Rightarrow> 'a TransactLogValidator_scheme \<Rightarrow> 'a TransactLogValidator_scheme handled" where
  "erase_column c v = schema_error"

definition erase_link_column :: "size_t \<Rightarrow> size_t \<Rightarrow> size_t \<Rightarrow> 'a TransactLogValidator_scheme \<Rightarrow> 'a TransactLogValidator_scheme handled" where
  "erase_link_column c t bc v = schema_error"

definition rename_column :: "size_t \<Rightarrow> string \<Rightarrow> 'a TransactLogValidator_scheme \<Rightarrow> 'a TransactLogValidator_scheme handled" where
  "rename_column c name v = schema_error"

definition remove_primary_key :: "'a TransactLogValidator_scheme \<Rightarrow> 'a TransactLogValidator_scheme handled" where
  "remove_primary_key v = schema_error"

definition move_column :: "size_t \<Rightarrow> size_t \<Rightarrow> 'a TransactLogValidator_scheme \<Rightarrow> 'a TransactLogValidator_scheme handled" where
  "move_column a b v = schema_error"

definition move_group_level_table :: "size_t \<Rightarrow> size_t \<Rightarrow> 'a TransactLogValidator_scheme \<Rightarrow> 'a TransactLogValidator_scheme handled" where
  "move_group_level_table a b v = schema_error"

text \<open>\<open>levels\<close> is a C++ \<open>int\<close>; only its comparison with 0 is used.\<close>

definition select_descriptor :: "int \<Rightarrow> 'a TransactLogValidator_scheme \<Rightarrow> 'a TransactLogValidator_scheme handled" where
  "select_descriptor levels v = Inr (levels = 0, v)"

definition select_table :: "size_t \<Rightarrow> int \<Rightarrow> 'a TransactLogValidator_scheme \<Rightarrow> 'a TransactLogValidator_scheme handled" where
  "select_table group_level_ndx levels v = Inr (True, v\<lparr>m_current_table := group_level_ndx\<rparr>)"

text \<open>
  The handlers under the comment \<open>Non-schema changes are all allowed\<close>, and
  \<open>select_link_list\<close>, return \<open>true\<close> and leave the validator as it is.
\<close>

definition validator_accept :: "'a TransactLogValidator_scheme \<Rightarrow> 'a TransactLogValidator_scheme handled" where
  "validator_accept v = Inr (True, v)"

section \<open>Log instructions\<close>

text \<open>
  One constructor per handler of the two classes, with the handler's \<open>size_t\<close>,
  \<open>int\<close>, \<open>bool\<close> and string arguments. Payloads no handler reads (data types, link
  types, the values written) are left out. The sixteen handlers that the observer
  forwards to \<open>mark_dirty(row, col)\<close> (\<open>set_int\<close> ... \<open>set_string_unique\<close>) share
  the constructor \<open>SetValue\<close>, tagged with the handler's name; each takes the column
  first and the row second.
\<close>

datatype setter =
    Set_int | Set_bool | Set_float | Set_double | Set_string | Set_binary
  | Set_date_time | Set_table | Set_mixed | Set_link | Set_null | Nullify_link
  | Insert_substring | Erase_substring | Set_int_unique | Set_string_unique

datatype instr =
    AddSearchIndex size_t
  | RemoveSearchIndex size_t
  | InsertGroupLevelTable size_t size_t string
  | InsertColumn size_t string bool
  | InsertLinkColumn size_t string size_t size_t
  | AddPrimaryKey size_t
  | SetLinkType size_t
  | EraseGroupLevelTable size_t size_t
  | RenameGroupLevelTable size_t string
  | EraseColumn size_t
  | EraseLinkColumn size_t size_t size_t
  | RenameColumn size_t string
  | RemovePrimaryKey
  | MoveColumn size_t size_t
  | MoveGroupLevelTable size_t size_t
  | SelectDescriptor int
  | SelectTable size_t int
  | SelectLinkList size_t size_t size_t
  | InsertEmptyRows size_t size_t size_t bool
  | EraseRows size_t size_t size_t bool
  | SwapRows size_t size_t
  | ClearTable
  | LinkListSet size_t size_t
  | LinkListInsert size_t size_t
  | LinkListErase size_t
  | LinkListNullify size_t
  | LinkListClear size_t
  | LinkListMove size_t size_t
  | LinkListSwap size_t size_t
  | SetValue setter size_t size_t
  | OptimizeTable

text \<open>The validator's handler for each instruction.\<close>

fun validator_handle :: "instr \<Rightarrow> TransactLogValidator \<Rightarrow> TransactLogValidator handled" where
  "validator_handle (AddSearchIndex c) v = add_search_index c v"
| "validator_handle (RemoveSearchIndex c) v = remove_search_index c v"
| "validator_handle (InsertGroupLevelTable t n name) v = validator_insert_group_level_table t n name v"
| "validator_handle (InsertColumn c name nullable) v = insert_column c name nullable v"
| "validator_handle (InsertLinkColumn c name t bc) v = insert_link_column c name t bc v"
| "validator_handle (AddPrimaryKey c) v = add_primary_key c v"
| "validator_handle (SetLinkType c) v = set_link_type c v"
| "validator_handle (EraseGroupLevelTable t n) v = erase_group_level_table t n v"
| "validator_handle (RenameGroupLevelTable t name) v = rename_group_level_table t name v"
| "validator_handle (EraseColumn c) v = erase_column c v"
| "validator_handle (EraseLinkColumn c t bc) v = erase_link_column c t bc v"
| "validator_handle (RenameColumn c name) v = rename_column c name v"
| "validator_handle RemovePrimaryKey v = remove_primary_key v"
| "validator_handle (MoveColumn a b) v = move_column a b v"
| "validator_handle (MoveGroupLevelTable a b) v = move_group_level_table a b v"
| "validator_handle (SelectDescriptor levels) v = select_descriptor levels v"
| "validator_handle (SelectTable t levels) v = select_table t levels v"
| "validator_handle _ v = validator_accept v"


text \<open>
  The log parser is part of the storage library. Its contract, as the handlers' use of
  their return value shows: the handlers are called in log order, an exception of a
  handler leaves the parse, and a handler that returns \<open>false\<close> makes the parser
  stop with a bad-transaction-log error. \<open>parse_complete\<close> does nothing in either class.
\<close>

fun parse_log :: "(instr \<Rightarrow> 's \<Rightarrow> 's handled) \<Rightarrow> instr list \<Rightarrow> 's \<Rightarrow> error + 's" where
  "parse_log h [] s = Inr s"
| "parse_log h (i # rest) s =
     (case h i s of
        Inl e \<Rightarrow> Inl e
      | Inr (ok, s') \<Rightarrow> if ok then parse_log h rest s' else Inl BadTransactLog)"

section \<open>IndexSet\<close>

text \<open>
  Modelled from the spec: the class \<open>IndexSet\<close> of \<open>index_set.hpp\<close>, which the source
  includes and whose code is not part of the files. Section 4.A of the specification
  gives it as an ordered sparse set of non-negative integers with these operations;
  each definition follows the sentence quoted with it.
\<close>

type_synonym IndexSet = "nat set"

text \<open>\<open>add(i)\<close>: insert i.\<close>

definition IndexSet_add :: "nat \<Rightarrow> IndexSet \<Rightarrow> IndexSet" where
  "IndexSet_add i s = insert i s"

text \<open>\<open>shift_for_insert_at(i)\<close>: shift every element \<open>\<ge> i\<close> up by 1 without adding i.\<close>

definition IndexSet_shift_for_insert_at :: "nat \<Rightarrow> IndexSet \<Rightarrow> IndexSet" where
  "IndexSet_shift_for_insert_at i s = (\<lambda>x. if x \<ge> i then x + 1 else x) ` s"

text \<open>\<open>insert_at(i)\<close>: shift every element \<open>\<ge> i\<close> up by 1, then add i.\<close>

definition IndexSet_insert_at :: "nat \<Rightarrow> IndexSet \<Rightarrow> IndexSet" where
  "IndexSet_insert_at i s = insert i (IndexSet_shift_for_insert_at i s)"

text \<open>\<open>erase_at(i)\<close>: remove i if present, then shift every element \<open>> i\<close> down by 1.\<close>

definition IndexSet_erase_at :: "nat \<Rightarrow> IndexSet \<Rightarrow> IndexSet" where
  "IndexSet_erase_at i s = (\<lambda>x. if x > i then x - 1 else x) ` (s - {i})"

text \<open>\<open>unshift(i)\<close>: i minus the count of stored elements \<open>< i\<close>.\<close>

definition IndexSet_unshift :: "IndexSet \<Rightarrow> nat \<Rightarrow> nat" where
  "IndexSet_unshift s i = i - card (Set.filter (\<lambda>x. x < i) s)"

text \<open>\<open>add_shifted(j)\<close>: add j without shifting.\<close>

definition IndexSet_add_shifted :: "nat \<Rightarrow> IndexSet \<Rightarrow> IndexSet" where
  "IndexSet_add_shifted j s = insert j s"

text \<open>\<open>clear()\<close>: empty.\<close>

definition IndexSet_clear :: "IndexSet \<Rightarrow> IndexSet" where
  "IndexSet_clear s = {}"

section \<open>TransactLogObserver\<close>

text \<open>
  \<open>ChangeInfo\<close> is declared in a header that is not part of the files. The source
  uses three members: \<open>changed.insert(row)\<close> (a set of rows), \<open>moves.find\<close>,
  \<open>moves[row] = ...\<close> (a map from row to row) and \<open>++deletions\<close> (a counter). A
  value-initialised \<open>ChangeInfo\<close>, as \<open>std::vector::resize\<close> creates, is
  \<open>ChangeInfo_new\<close>.
\<close>

record ChangeInfo =
  changed :: "size_t set"
  moves :: "size_t \<rightharpoonup> size_t"
  deletions :: size_t

definition ChangeInfo_new :: ChangeInfo where
  "ChangeInfo_new = \<lparr>changed = {}, moves = Map.empty, deletions = 0\<rparr>"

text \<open>The list of moves of a link list is \<open>ll_moves\<close> (\<open>moves\<close> in the source).\<close>

record LinkListInfo =
  table_ndx :: size_t
  row_ndx :: size_t
  col_ndx :: size_t
  inserts :: IndexSet
  deletes :: IndexSet
  changes :: IndexSet
  ll_moves :: "(size_t \<times> size_t) list"
  did_clear :: bool

text \<open>
  The observer extends the validator. \<open>m_active_linklist\<close> points into
  \<open>m_observered_linkviews\<close>: it is the position of the selected entry, or \<open>None\<close> for
  \<open>nullptr\<close>.
\<close>

record TransactLogObserver = TransactLogValidator +
  m_active_linklist :: "nat option"
  m_observered_linkviews :: "LinkListInfo list"
  m_changes :: "ChangeInfo list"

text \<open>
  \<open>get_change(i)\<close> grows \<open>m_changes\<close> to \<open>max(size * 2, i + 1)\<close> entries when
  \<open>size \<le> i\<close>; \<open>i + 1\<close> is a \<open>size_t\<close> sum. The entry \<open>m_changes[i]\<close> it returns a
  reference to is read by the callers below, which fail with \<open>VectorOutOfRange\<close> where
  the index is still past the end (only for \<open>i = 2^64 - 1\<close>, where \<open>i + 1\<close> wraps).
\<close>

definition get_change :: "size_t \<Rightarrow> ChangeInfo list \<Rightarrow> ChangeInfo list" where
  "get_change i cs =
     (if length cs \<le> unat i
      then cs @ replicate (max (length cs * 2) (unat (i + 1)) - length cs) ChangeInfo_new
      else cs)"

definition mark_dirty :: "size_t \<Rightarrow> size_t \<Rightarrow> TransactLogObserver \<Rightarrow> TransactLogObserver handled" where
  "mark_dirty row col obs =
     (let cs = get_change (current_table obs) (m_changes obs);
          t = unat (current_table obs)
      in if length cs \<le> t then Inl VectorOutOfRange
         else
           let table = cs ! t;
               row' = (case moves table row of Some orig \<Rightarrow> orig | None \<Rightarrow> row)
           in Inr (True, obs\<lparr>m_changes := cs[t := table\<lparr>changed := insert row' (changed table)\<rparr>]\<rparr>))"

definition observer_insert_group_level_table ::
  "size_t \<Rightarrow> size_t \<Rightarrow> string \<Rightarrow> TransactLogObserver \<Rightarrow> TransactLogObserver handled" where
  "observer_insert_group_level_table tbl_ndx num_tables name obs = Inr (False, obs)"

definition observer_insert_empty_rows ::
  "size_t \<Rightarrow> size_t \<Rightarrow> size_t \<Rightarrow> bool \<Rightarrow> TransactLogObserver \<Rightarrow> TransactLogObserver handled" where
  "observer_insert_empty_rows row n prior_num_rows unordered obs = Inr (True, obs)"

definition observer_erase_rows ::
  "size_t \<Rightarrow> size_t \<Rightarrow> size_t \<Rightarrow> bool \<Rightarrow> TransactLogObserver \<Rightarrow> TransactLogObserver handled" where
  "observer_erase_rows row n prior_num_rows unordered obs =
     (if \<not> unordered then Inl AssertionFailed
      else
        let cs = get_change (current_table obs) (m_changes obs);
            t = unat (current_table obs)
        in if length cs \<le> t then Inl VectorOutOfRange
           else
             let table = cs ! t;
                 last_row_ndx = prior_num_rows - 1;
                 last_row_ndx' = (case moves table last_row_ndx of
                                    Some orig \<Rightarrow> orig | None \<Rightarrow> last_row_ndx)
             in Inr (True, obs\<lparr>m_changes :=
                  cs[t := table\<lparr>moves := (moves table)(row \<mapsto> last_row_ndx'),
                                deletions := deletions table + 1\<rparr>]\<rparr>))"

definition observer_clear_table :: "TransactLogObserver \<Rightarrow> TransactLogObserver handled" where
  "observer_clear_table obs = Inr (True, obs)"

text \<open>The loop of \<open>select_link_list\<close>: the position of the first matching entry.\<close>

fun find_linkview :: "size_t \<Rightarrow> size_t \<Rightarrow> size_t \<Rightarrow> nat \<Rightarrow> LinkListInfo list \<Rightarrow> nat option" where
  "find_linkview t row col i [] = None"
| "find_linkview t row col i (x # xs) =
     (if table_ndx x = t \<and> row_ndx x = row \<and> col_ndx x = col then Some i
      else find_linkview t row col (Suc i) xs)"

definition observer_select_link_list ::
  "size_t \<Rightarrow> size_t \<Rightarrow> size_t \<Rightarrow> TransactLogObserver \<Rightarrow> TransactLogObserver handled" where
  "observer_select_link_list col row link_target obs =
     Inr (True, obs\<lparr>m_active_linklist :=
       find_linkview (current_table obs) row col 0 (m_observered_linkviews obs)\<rparr>)"

text \<open>
  The link-list handlers return \<open>true\<close> at once when \<open>m_active_linklist\<close> is null and
  otherwise update the entry it points to. IndexSet positions are the handler's
  \<open>size_t\<close> argument read as a number.
\<close>

definition on_active :: "(LinkListInfo \<Rightarrow> LinkListInfo) \<Rightarrow> TransactLogObserver \<Rightarrow> TransactLogObserver" where
  "on_active f obs =
     (case m_active_linklist obs of
        None \<Rightarrow> obs
      | Some k \<Rightarrow> obs\<lparr>m_observered_linkviews :=
          (m_observered_linkviews obs)[k := f (m_observered_linkviews obs ! k)]\<rparr>)"

definition link_list_set_info :: "size_t \<Rightarrow> LinkListInfo \<Rightarrow> LinkListInfo" where
  "link_list_set_info idx l = l\<lparr>changes := IndexSet_add (unat idx) (changes l)\<rparr>"

definition link_list_set :: "size_t \<Rightarrow> size_t \<Rightarrow> TransactLogObserver \<Rightarrow> TransactLogObserver handled" where
  "link_list_set idx v obs = Inr (True, on_active (link_list_set_info idx) obs)"

definition link_list_insert_info :: "size_t \<Rightarrow> LinkListInfo \<Rightarrow> LinkListInfo" where
  "link_list_insert_info idx l =
     l\<lparr>changes := IndexSet_shift_for_insert_at (unat idx) (changes l),
       inserts := IndexSet_insert_at (unat idx) (inserts l),
       ll_moves := map (\<lambda>move. if snd move \<ge> idx then (fst move, snd move + 1) else move) (ll_moves l)\<rparr>"

definition link_list_insert :: "size_t \<Rightarrow> size_t \<Rightarrow> TransactLogObserver \<Rightarrow> TransactLogObserver handled" where
  "link_list_insert idx v obs = Inr (True, on_active (link_list_insert_info idx) obs)"

text \<open>
  The loop over \<open>moves\<close> in \<open>link_list_erase\<close>: an entry whose second component is the
  erased index is removed (the loop then looks at the same position again), a later one
  is decremented.
\<close>

fun erase_moves :: "size_t \<Rightarrow> (size_t \<times> size_t) list \<Rightarrow> (size_t \<times> size_t) list" where
  "erase_moves idx [] = []"
| "erase_moves idx (move # rest) =
     (if snd move = idx then erase_moves idx rest
      else if snd move > idx then (fst move, snd move - 1) # erase_moves idx rest
      else move # erase_moves idx rest)"

definition link_list_erase_info :: "size_t \<Rightarrow> LinkListInfo \<Rightarrow> LinkListInfo" where
  "link_list_erase_info idx l =
     (let changes' = IndexSet_erase_at (unat idx) (changes l);
          inserts' = IndexSet_erase_at (unat idx) (inserts l);
          deletes' = IndexSet_add_shifted (IndexSet_unshift inserts' (unat idx)) (deletes l)
      in l\<lparr>changes := changes', inserts := inserts', deletes := deletes',
            ll_moves := erase_moves idx (ll_moves l)\<rparr>)"

definition link_list_erase :: "size_t \<Rightarrow> TransactLogObserver \<Rightarrow> TransactLogObserver handled" where
  "link_list_erase idx obs = Inr (True, on_active (link_list_erase_info idx) obs)"

definition link_list_nullify :: "size_t \<Rightarrow> TransactLogObserver \<Rightarrow> TransactLogObserver handled" where
  "link_list_nullify idx obs = link_list_erase idx obs"

definition link_list_swap :: "size_t \<Rightarrow> size_t \<Rightarrow> TransactLogObserver \<Rightarrow> TransactLogObserver handled" where
  "link_list_swap index1 index2 obs =
     Inr (True, on_active (link_list_set_info index2) (on_active (link_list_set_info index1) obs))"

definition link_list_clear_info :: "LinkListInfo \<Rightarrow> LinkListInfo" where
  "link_list_clear_info l =
     l\<lparr>did_clear := True, changes := IndexSet_clear (changes l),
       inserts := IndexSet_clear (inserts l), deletes := IndexSet_clear (deletes l),
       ll_moves := []\<rparr>"

definition link_list_clear :: "size_t \<Rightarrow> TransactLogObserver \<Rightarrow> TransactLogObserver handled" where
  "link_list_clear old_size obs = Inr (True, on_active link_list_clear_info obs)"

text \<open>
  \<open>link_list_move\<close>: \<open>from\<close> is replaced by its unshifted position before the sets are
  updated; the flag \<open>sadhkljh\<close> is computed from the arguments as passed.
\<close>

definition link_list_move_info :: "size_t \<Rightarrow> size_t \<Rightarrow> LinkListInfo \<Rightarrow> LinkListInfo" where
  "link_list_move_info from to l =
     (let sadhkljh = from < to;
          from1 = IndexSet_unshift (inserts l) (unat from);
          from2 = IndexSet_unshift (deletes l) from1;
          moves' = ll_moves l @ [(of_nat from2, to)]
      in if sadhkljh
         then l\<lparr>ll_moves := moves',
                changes := IndexSet_shift_for_insert_at from2 (IndexSet_erase_at from2 (changes l)),
                inserts := IndexSet_shift_for_insert_at from2 (IndexSet_erase_at from2 (inserts l)),
                deletes := IndexSet_add from2 (deletes l)\<rparr>
         else l\<lparr>ll_moves := moves',
                changes := IndexSet_erase_at from2 (IndexSet_shift_for_insert_at from2 (changes l)),
                inserts := IndexSet_erase_at from2 (IndexSet_shift_for_insert_at from2 (inserts l)),
                deletes := IndexSet_add from2 (deletes l)\<rparr>)"

definition link_list_move :: "size_t \<Rightarrow> size_t \<Rightarrow> TransactLogObserver \<Rightarrow> TransactLogObserver handled" where
  "link_list_move from to obs = Inr (True, on_active (link_list_move_info from to) obs)"

text \<open>
  The observer's handler for each instruction: its own where the class overrides the
  validator's, the inherited one otherwise.
\<close>

fun observer_handle :: "instr \<Rightarrow> TransactLogObserver \<Rightarrow> TransactLogObserver handled" where
  "observer_handle (AddSearchIndex c) obs = add_search_index c obs"
| "observer_handle (RemoveSearchIndex c) obs = remove_search_index c obs"
| "observer_handle (InsertGroupLevelTable t n name) obs = observer_insert_group_level_table t n name obs"
| "observer_handle (InsertColumn c name nullable) obs = insert_column c name nullable obs"
| "observer_handle (InsertLinkColumn c name t bc) obs = insert_link_column c name t bc obs"
| "observer_handle (AddPrimaryKey c) obs = add_primary_key c obs"
| "observer_handle (SetLinkType c) obs = set_link_type c obs"
| "observer_handle (EraseGroupLevelTable t n) obs = erase_group_level_table t n obs"
| "observer_handle (RenameGroupLevelTable t name) obs = rename_group_level_table t name obs"
| "observer_handle (EraseColumn c) obs = erase_column c obs"
| "observer_handle (EraseLinkColumn c t bc) obs = erase_link_column c t bc obs"
| "observer_handle (RenameColumn c name) obs = rename_column c name obs"
| "observer_handle RemovePrimaryKey obs = remove_primary_key obs"
| "observer_handle (MoveColumn a b) obs = move_column a b obs"
| "observer_handle (MoveGroupLevelTable a b) obs = move_group_level_table a b obs"
| "observer_handle (SelectDescriptor levels) obs = select_descriptor levels obs"
| "observer_handle (SelectTable t levels) obs = select_table t levels obs"
| "observer_handle (SelectLinkList col row link_target) obs = observer_select_link_list col row link_target obs"
| "observer_handle (InsertEmptyRows r n p u) obs = observer_insert_empty_rows r n p u obs"
| "observer_handle (EraseRows r n p u) obs = observer_erase_rows r n p u obs"
| "observer_handle (SwapRows a b) obs = validator_accept obs"
| "observer_handle ClearTable obs = observer_clear_table obs"
| "observer_handle (LinkListSet i v) obs = link_list_set i v obs"
| "observer_handle (LinkListInsert i v) obs = link_list_insert i v obs"
| "observer_handle (LinkListErase i) obs = link_list_erase i obs"
| "observer_handle (LinkListNullify i) obs = link_list_nullify i obs"
| "observer_handle (LinkListClear n) obs = link_list_clear n obs"
| "observer_handle (LinkListMove a b) obs = link_list_move a b obs"
| "observer_handle (LinkListSwap a b) obs = link_list_swap a b obs"
| "observer_handle (SetValue k col row) obs = mark_dirty row col obs"
| "observer_handle OptimizeTable obs = validator_accept obs"

text \<open>A default-constructed observer, as \<open>run_async_queries\<close> creates it.\<close>

definition TransactLogObserver_new :: TransactLogObserver where
  "TransactLogObserver_new =
     \<lparr>m_current_table = 0, m_new_tables = [],
      m_active_linklist = None, m_observered_linkviews = [], m_changes = []\<rparr>"

subsection \<open>Reading the observer's result\<close>

text \<open>
  The change state of table \<open>t\<close> as a reader of \<open>m_changes\<close> sees it: the entry at
  \<open>t\<close>, or an empty \<open>ChangeInfo\<close> where the vector is shorter (the state
  \<open>get_change\<close> would create there).
\<close>

definition table_change :: "ChangeInfo list \<Rightarrow> size_t \<Rightarrow> ChangeInfo" where
  "table_change cs t = (if unat t < length cs then cs ! unat t else ChangeInfo_new)"


definition selected_change :: "TransactLogObserver \<Rightarrow> ChangeInfo" where
  "selected_change obs = table_change (m_changes obs) (current_table obs)"

text \<open>
  Inserting a top-level table at index \<open>k\<close> moves every table at an index \<open>\<ge> k\<close> one
  up: \<open>table_after_insert k t\<close> is where the table that was at \<open>t\<close> is afterwards.
\<close>

definition table_after_insert :: "size_t \<Rightarrow> size_t \<Rightarrow> size_t" where
  "table_after_insert k t = (if t \<ge> k then t + 1 else t)"





section \<open>RealmCoordinator: opening handles\<close>

text \<open>
  \<open>Realm::Config\<close> is declared in a header that is not part of the files; these are
  the members \<open>get_realm\<close> reads (the schema is only read in a branch disabled by
  \<open>(false) &&\<close>). The encryption key is a byte vector, the schema version a 64-bit
  unsigned number. \<open>NotVersioned\<close> stands for \<open>ObjectStore::NotVersioned\<close>, whose value is
  given in another file too: no property below depends on the number.
\<close>

record Config =
  path :: string
  read_only :: bool
  in_memory :: bool
  cache :: bool
  encryption_key :: "8 word list"
  schema_version :: "64 word"

definition NotVersioned :: "64 word" where
  "NotVersioned = - 1"

text \<open>
  Modelled from the spec: a cached handle (\<open>CachedRealm\<close>, whose code is not part of
  the files) is a weak reference to a handle, the thread that created it and a cache
  flag saying whether reuse on that thread is permitted. \<open>cr_expired\<close> says that the
  weak reference no longer upgrades.
\<close>

record CachedRealm =
  cr_realm :: nat
  cr_thread :: nat
  cr_cache :: bool
  cr_expired :: bool

definition is_cached_for_thread :: "nat \<Rightarrow> CachedRealm \<Rightarrow> bool" where
  "is_cached_for_thread tid cr = (cr_cache cr \<and> cr_thread cr = tid)"

text \<open>
  A read transaction of the storage engine (\<open>SharedGroup\<close>) as the coordinator uses it:
  the version it is at and whether a read is held. \<open>begin_read\<close> starts a read at a
  version, \<open>end_read\<close> releases it. A \<open>VersionID\<close> is a pair of a version number and an
  index, ordered and compared by the version number; \<open>VersionID()\<close> has version 0, which
  \<open>advance_to_ready\<close> tests for as \<open>version.version == 0\<close>.
\<close>

record VersionID =
  vid_version :: "64 word"
  vid_index :: "32 word"

definition VersionID_default :: VersionID where
  "VersionID_default = \<lparr>vid_version = 0, vid_index = 0\<rparr>"

definition vid_less :: "VersionID \<Rightarrow> VersionID \<Rightarrow> bool" where
  "vid_less a b = (vid_version a < vid_version b)"

definition vid_differs :: "VersionID \<Rightarrow> VersionID \<Rightarrow> bool" where
  "vid_differs a b = (vid_version a \<noteq> vid_version b)"

record SharedGroup =
  sg_version :: VersionID
  sg_reading :: bool

definition begin_read :: "VersionID \<Rightarrow> SharedGroup" where
  "begin_read v = \<lparr>sg_version = v, sg_reading = True\<rparr>"

definition end_read :: "SharedGroup \<Rightarrow> SharedGroup" where
  "end_read sg = sg\<lparr>sg_reading := False\<rparr>"

text \<open>
  Modelled from the spec: an \<open>AsyncQuery\<close> (its code is not part of the files) exposes
  \<open>version()\<close>, the version it was registered at or the sentinel once a result has been
  handed over, and \<open>is_alive()\<close>. \<open>q_id\<close> tells the query objects apart.
\<close>

record AsyncQuery =
  q_id :: nat
  q_version :: VersionID
  q_alive :: bool

text \<open>
  The other methods of a query are parameters: what \<open>run\<close>, \<open>prepare_handover\<close>,
  \<open>deliver\<close>, \<open>attach_to\<close> and \<open>detatch\<close> do to the query object, and whether \<open>deliver\<close>
  accepts.
\<close>

record QueryOps =
  run_query :: "ChangeInfo list \<Rightarrow> AsyncQuery \<Rightarrow> AsyncQuery"
  prepare_handover :: "AsyncQuery \<Rightarrow> AsyncQuery"
  deliver :: "VersionID \<Rightarrow> error option \<Rightarrow> AsyncQuery \<Rightarrow> bool \<times> AsyncQuery"
  attach_to :: "VersionID \<Rightarrow> AsyncQuery \<Rightarrow> AsyncQuery"
  detatch :: "AsyncQuery \<Rightarrow> AsyncQuery"

text \<open>
  What the storage engine answers during one operation: the outcome of the \<open>try\<close>
  block that opens a helper shared group (\<open>Realm::open_with_config\<close> and the first
  \<open>begin_read\<close>), the latest committed version, and the instructions the log holds for
  the query snapshot's advance. \<open>OpenedReadOnlyGroup\<close> is the outcome in which
  \<open>open_with_config\<close> yields a read-only group, which \<open>REALM_ASSERT(!read_only_group)\<close>
  rules out.
\<close>

datatype open_result = Opened | OpenThrew | OpenedReadOnlyGroup

record Storage =
  open_outcome :: open_result
  latest_version :: VersionID
  pending_log :: "instr list"

text \<open>
  The calls the coordinator makes on its collaborators are recorded, in order, in
  \<open>calls\<close>, a field the source does not have. \<open>m_notifier\<close> says whether the notifier
  pointer is set. A helper shared group is \<open>None\<close> while its pointer is null; the
  history pointers \<open>m_query_history\<close> and \<open>m_advancer_history\<close> are set and reset
  together with their shared group and have no field of their own.
\<close>

datatype helper = QuerySG | AdvancerSG

datatype call =
    OpenSG helper
  | BeginRead helper "VersionID option"
  | EndRead helper
  | AdvanceRead helper "VersionID option"
  | ObserverCreated
  | ReleaseQuery nat
  | RunQuery nat
  | PrepareHandover nat
  | AttachTo nat helper
  | Detatch nat
  | Deliver nat
  | CallCallbacks nat
  | AdvanceHandle "VersionID option"
  | NotifyRealm nat

record RealmCoordinator =
  m_config :: Config
  m_notifier :: bool
  m_cached_realms :: "CachedRealm list"
  m_queries :: "AsyncQuery list"
  m_new_queries :: "AsyncQuery list"
  m_query_sg :: "SharedGroup option"
  m_advancer_sg :: "SharedGroup option"
  m_async_error :: "error option"
  calls :: "call list"

text \<open>\<open>called cs c\<close> adds the calls \<open>cs\<close> to the record.\<close>

definition called :: "call list \<Rightarrow> RealmCoordinator \<Rightarrow> RealmCoordinator" where
  "called cs c = c\<lparr>calls := calls c @ cs\<rparr>"

text \<open>
  A coordinator as \<open>get_coordinator\<close> constructs it: no notifier, no handles, no
  queries, no helper snapshots, no error. Its configuration is a default
  \<open>Realm::Config\<close> (read-write, on disk, cached, no key, not versioned).
\<close>

definition Config_new :: Config where
  "Config_new = \<lparr>path = [], read_only = False, in_memory = False, cache = True,
                  encryption_key = [], schema_version = NotVersioned\<rparr>"

definition RealmCoordinator_new :: RealmCoordinator where
  "RealmCoordinator_new =
     \<lparr>m_config = Config_new, m_notifier = False, m_cached_realms = [],
      m_queries = [], m_new_queries = [], m_query_sg = None, m_advancer_sg = None,
      m_async_error = None, calls = []\<rparr>"

text \<open>
  \<open>get_realm(config)\<close>. The caller's thread, whether the notifier can be constructed
  and what constructing and initialising a new \<open>Realm\<close> gives (its identity, or the
  exception it throws) are inputs. The result is the handle's identity or the exception,
  with the coordinator as the call leaves it.
\<close>

record Caller =
  caller_thread :: nat
  notifier_ok :: bool
  new_realm :: "error + nat"

text \<open>The scan of \<open>m_cached_realms\<close> done when \<open>config.cache\<close> is set.\<close>

fun find_cached :: "nat \<Rightarrow> CachedRealm list \<Rightarrow> nat option" where
  "find_cached tid [] = None"
| "find_cached tid (cr # rest) =
     (if is_cached_for_thread tid cr \<and> \<not> cr_expired cr then Some (cr_realm cr)
      else find_cached tid rest)"

text \<open>
  The four comparisons \<open>get_realm\<close> makes between the captured configuration and the
  incoming one, taken together.
\<close>

definition config_mismatch :: "Config \<Rightarrow> Config \<Rightarrow> bool" where
  "config_mismatch mine config =
     (read_only mine \<noteq> read_only config
      \<or> in_memory mine \<noteq> in_memory config
      \<or> encryption_key mine \<noteq> encryption_key config
      \<or> (schema_version mine \<noteq> schema_version config \<and> schema_version config \<noteq> NotVersioned))"

text \<open>
  The part of \<open>get_realm\<close> after the configuration check: a cached handle of the
  caller's thread is returned if \<open>config.cache\<close> is set and there is one; otherwise a
  new handle is constructed, initialised and recorded with \<open>m_config.cache\<close>.
\<close>

definition open_or_reuse :: "Caller \<Rightarrow> Config \<Rightarrow> RealmCoordinator \<Rightarrow> (error + nat) \<times> RealmCoordinator" where
  "open_or_reuse who config c =
     (case (if cache config then find_cached (caller_thread who) (m_cached_realms c) else None) of
        Some r \<Rightarrow> (Inr r, c)
      | None \<Rightarrow>
          (case new_realm who of
             Inl e \<Rightarrow> (Inl e, c)
           | Inr r \<Rightarrow>
               (Inr r, c\<lparr>m_cached_realms := m_cached_realms c @
                  [\<lparr>cr_realm = r, cr_thread = caller_thread who,
                    cr_cache = cache (m_config c), cr_expired = False\<rparr>]\<rparr>)))"

definition get_realm :: "Caller \<Rightarrow> Config \<Rightarrow> RealmCoordinator \<Rightarrow> (error + nat) \<times> RealmCoordinator" where
  "get_realm who config c =
     (if (\<not> read_only (m_config c) \<and> \<not> m_notifier c)
         \<or> (read_only (m_config c) \<and> m_cached_realms c = [])
      then
        let c1 = c\<lparr>m_config := config\<rparr>
        in if \<not> read_only config \<and> \<not> m_notifier c1
           then if notifier_ok who
                then open_or_reuse who config (c1\<lparr>m_notifier := True\<rparr>)
                else (Inl FileAccessError, c1)
           else open_or_reuse who config c1
      else if read_only (m_config c) \<noteq> read_only config then (Inl MismatchedConfig, c)
      else if in_memory (m_config c) \<noteq> in_memory config then (Inl MismatchedConfig, c)
      else if encryption_key (m_config c) \<noteq> encryption_key config then (Inl MismatchedConfig, c)
      else if schema_version (m_config c) \<noteq> schema_version config
              \<and> schema_version config \<noteq> NotVersioned then (Inl MismatchedConfig, c)
      else open_or_reuse who config c)"

text \<open>
  The coordinator holds a captured configuration when \<open>get_realm\<close> does not capture the
  incoming one: a read-write configuration with its notifier, or a read-only one with a
  handle still recorded.
\<close>

definition holds_config :: "RealmCoordinator \<Rightarrow> bool" where
  "holds_config c =
     (\<not> ((\<not> read_only (m_config c) \<and> \<not> m_notifier c)
         \<or> (read_only (m_config c) \<and> m_cached_realms c = [])))"

section \<open>RealmCoordinator: asynchronous queries\<close>

text \<open>
  The functions below return \<open>Inl\<close> where an exception or a failed assertion leaves the
  function, and the coordinator otherwise. Calls of the storage engine outside a \<open>try\<close>
  block are taken not to throw. The functions run as one thread executes them: the
  window in which \<open>run_async_queries\<close> releases the query lock is not modelled.
\<close>

definition pin_version :: "Storage \<Rightarrow> VersionID \<Rightarrow> RealmCoordinator \<Rightarrow> error + RealmCoordinator" where
  "pin_version st versionid c =
     (if m_async_error c \<noteq> None then Inr c
      else
        case m_advancer_sg c of
          None \<Rightarrow>
            (case open_outcome st of
               Opened \<Rightarrow>
                 Inr (called [OpenSG AdvancerSG, BeginRead AdvancerSG (Some versionid)]
                        (c\<lparr>m_advancer_sg := Some (begin_read versionid)\<rparr>))
             | OpenThrew \<Rightarrow>
                 Inr (called [OpenSG AdvancerSG]
                        (c\<lparr>m_async_error := Some OpenFailed, m_advancer_sg := None\<rparr>))
             | OpenedReadOnlyGroup \<Rightarrow> Inl AssertionFailed)
        | Some sg \<Rightarrow>
            if m_new_queries c = []
            then Inr (called [BeginRead AdvancerSG (Some versionid)]
                        (c\<lparr>m_advancer_sg := Some (begin_read versionid)\<rparr>))
            else if vid_less versionid (sg_version sg)
            then Inr (called [EndRead AdvancerSG, BeginRead AdvancerSG (Some versionid)]
                        (c\<lparr>m_advancer_sg := Some (begin_read versionid)\<rparr>))
            else Inr c)"

definition register_query :: "Storage \<Rightarrow> AsyncQuery \<Rightarrow> RealmCoordinator \<Rightarrow> error + RealmCoordinator" where
  "register_query st query c =
     (case pin_version st (q_version query) c of
        Inl e \<Rightarrow> Inl e
      | Inr c' \<Rightarrow> Inr (c'\<lparr>m_new_queries := m_new_queries c' @ [query]\<rparr>))"

text \<open>
  The lambda \<open>swap_remove\<close> of \<open>clean_up_dead_queries\<close>, from position \<open>i\<close> on: a live
  entry is skipped; a dead one is released, overwritten by the last entry unless it is
  the last, and the container shrinks by one; the loop then looks at position \<open>i\<close>
  again (\<open>--i\<close> followed by the loop's \<open>++i\<close>). The result is the container, the flag
  \<open>did_remove\<close> and the identities of the released queries in order.
\<close>

function swap_remove_from ::
  "nat \<Rightarrow> AsyncQuery list \<Rightarrow> bool \<Rightarrow> nat list \<Rightarrow> AsyncQuery list \<times> bool \<times> nat list" where
  "swap_remove_from i container did_remove released =
     (if i < length container
      then
        if q_alive (container ! i)
        then swap_remove_from (i + 1) container did_remove released
        else swap_remove_from i
               (butlast (if length container > i + 1
                         then container[i := last container] else container))
               True (released @ [q_id (container ! i)])
      else (container, did_remove, released))"
  by pat_completeness auto
termination
  by (relation "measure (\<lambda>(i, container, did_remove, released). length container - i)") auto

declare swap_remove_from.simps [simp del]

definition swap_remove :: "AsyncQuery list \<Rightarrow> AsyncQuery list \<times> bool \<times> nat list" where
  "swap_remove container = swap_remove_from 0 container False []"

text \<open>\<open>end_read\<close> on a helper shared group if the condition holds.\<close>

definition end_read_if :: "bool \<Rightarrow> SharedGroup option \<Rightarrow> SharedGroup option" where
  "end_read_if b sg = (if b then map_option end_read sg else sg)"

definition clean_up_dead_queries :: "RealmCoordinator \<Rightarrow> RealmCoordinator" where
  "clean_up_dead_queries c =
     (let (queries, removed, released) = swap_remove (m_queries c);
          end_query = (removed \<and> queries = [] \<and> m_query_sg c \<noteq> None);
          c1 = called (map ReleaseQuery released @ (if end_query then [EndRead QuerySG] else []))
                 (c\<lparr>m_queries := queries,
                    m_query_sg := end_read_if end_query (m_query_sg c)\<rparr>);
          (new_queries, new_removed, new_released) = swap_remove (m_new_queries c1);
          end_advancer = (new_removed \<and> new_queries = [] \<and> m_advancer_sg c1 \<noteq> None)
      in called (map ReleaseQuery new_released @ (if end_advancer then [EndRead AdvancerSG] else []))
           (c1\<lparr>m_new_queries := new_queries,
               m_advancer_sg := end_read_if end_advancer (m_advancer_sg c1)\<rparr>))"

definition open_helper_shared_group :: "Storage \<Rightarrow> RealmCoordinator \<Rightarrow> error + RealmCoordinator" where
  "open_helper_shared_group st c =
     (case m_query_sg c of
        None \<Rightarrow>
          (case open_outcome st of
             Opened \<Rightarrow>
               Inr (called [OpenSG QuerySG, BeginRead QuerySG None]
                      (c\<lparr>m_query_sg := Some (begin_read (latest_version st))\<rparr>))
           | OpenThrew \<Rightarrow>
               Inr (called [OpenSG QuerySG]
                      (c\<lparr>m_async_error := Some OpenFailed, m_query_sg := None\<rparr>))
           | OpenedReadOnlyGroup \<Rightarrow> Inl AssertionFailed)
      | Some sg \<Rightarrow>
          if m_queries c = []
          then Inr (called [BeginRead QuerySG None]
                      (c\<lparr>m_query_sg := Some (begin_read (latest_version st))\<rparr>))
          else Inr c)"

definition move_new_queries_to_main :: "RealmCoordinator \<Rightarrow> RealmCoordinator" where
  "move_new_queries_to_main c =
     c\<lparr>m_queries := m_queries c @ m_new_queries c, m_new_queries := []\<rparr>"

text \<open>
  \<open>advance_helper_shared_group_to_latest(obs)\<close>. Advancing the query snapshot feeds the
  observer with the pending log; an exception of a handler leaves the function. The
  result is the coordinator with the observer's \<open>m_changes\<close>. \<open>std::sort\<close> by version
  is given as the stable sort. Dereferencing a null helper pointer is \<open>NullPointer\<close>.
\<close>

definition advance_helper_shared_group_to_latest ::
  "Storage \<Rightarrow> QueryOps \<Rightarrow> RealmCoordinator \<Rightarrow> error + (RealmCoordinator \<times> ChangeInfo list)" where
  "advance_helper_shared_group_to_latest st ops c =
     (case m_query_sg c of
        None \<Rightarrow> Inl NullPointer
      | Some qsg \<Rightarrow>
          if m_new_queries c = []
          then (case parse_log observer_handle (pending_log st) TransactLogObserver_new of
                  Inl e \<Rightarrow> Inl e
                | Inr obs \<Rightarrow>
                    Inr (called [AdvanceRead QuerySG None]
                           (c\<lparr>m_query_sg := Some (qsg\<lparr>sg_version := latest_version st\<rparr>)\<rparr>),
                         m_changes obs))
          else
            (case m_advancer_sg c of
               None \<Rightarrow> Inl NullPointer
             | Some asg \<Rightarrow>
                 let sorted_new = sort_key (\<lambda>q. vid_version (q_version q)) (m_new_queries c);
                     attached = map (\<lambda>q. attach_to ops (q_version q) q) sorted_new;
                     import_calls = concat (map (\<lambda>q. [AdvanceRead AdvancerSG (Some (q_version q)),
                                                     AttachTo (q_id q) AdvancerSG]) sorted_new);
                     asg' = asg\<lparr>sg_version := latest_version st\<rparr>
                 in case parse_log observer_handle (pending_log st) TransactLogObserver_new of
                      Inl e \<Rightarrow> Inl e
                    | Inr obs \<Rightarrow>
                        let moved = map (\<lambda>q. attach_to ops (sg_version asg') (detatch ops q)) attached;
                            transfer_calls = concat (map (\<lambda>q. [Detatch (q_id q),
                                                              AttachTo (q_id q) QuerySG]) attached)
                        in Inr (called (import_calls
                                   @ [AdvanceRead AdvancerSG None,
                                      AdvanceRead QuerySG (Some (sg_version asg'))]
                                   @ transfer_calls @ [EndRead AdvancerSG])
                                  (move_new_queries_to_main
                                     (c\<lparr>m_new_queries := moved,
                                        m_query_sg := Some (qsg\<lparr>sg_version := sg_version asg'\<rparr>),
                                        m_advancer_sg := Some (end_read asg')\<rparr>)),
                                m_changes obs)))"

definition run_async_queries :: "Storage \<Rightarrow> QueryOps \<Rightarrow> RealmCoordinator \<Rightarrow> error + RealmCoordinator" where
  "run_async_queries st ops c =
     (let c1 = clean_up_dead_queries c
      in if m_queries c1 = [] \<and> m_new_queries c1 = [] then Inr c1
         else
           case (if m_async_error c1 = None then open_helper_shared_group st c1 else Inr c1) of
             Inl e \<Rightarrow> Inl e
           | Inr c2 \<Rightarrow>
               if m_async_error c2 \<noteq> None then Inr (move_new_queries_to_main c2)
               else
                 case advance_helper_shared_group_to_latest st ops (called [ObserverCreated] c2) of
                   Inl e \<Rightarrow> Inl e
                 | Inr (c3, obs_changes) \<Rightarrow>
                     let ran = map (run_query ops obs_changes) (m_queries c3);
                         prepared = map (prepare_handover ops) ran
                     in Inr (clean_up_dead_queries
                               (called (map (\<lambda>q. RunQuery (q_id q)) (m_queries c3)
                                        @ map (\<lambda>q. PrepareHandover (q_id q)) ran)
                                  (c3\<lparr>m_queries := prepared\<rparr>))))"

definition on_change :: "Storage \<Rightarrow> QueryOps \<Rightarrow> RealmCoordinator \<Rightarrow> error + RealmCoordinator" where
  "on_change st ops c =
     (case run_async_queries st ops c of
        Inl e \<Rightarrow> Inl e
      | Inr c' \<Rightarrow> Inr (called (map (\<lambda>cr. NotifyRealm (cr_realm cr)) (m_cached_realms c')) c'))"

text \<open>
  A handle (\<open>Realm\<close>) as the two delivery functions use it: its identity and the version
  its own shared group is at.
\<close>

record Realm =
  realm_id :: nat
  realm_version :: VersionID

text \<open>
  Modelled from the spec: \<open>transaction::advance\<close>, whose code is not part of the files,
  advances the handle's snapshot to the given version, or to the latest committed
  version when none is given.
\<close>

definition transaction_advance :: "Storage \<Rightarrow> VersionID option \<Rightarrow> Realm \<Rightarrow> Realm" where
  "transaction_advance st target realm =
     realm\<lparr>realm_version := (case target of None \<Rightarrow> latest_version st | Some v \<Rightarrow> v)\<rparr>"

text \<open>
  The first loop of \<open>advance_to_ready\<close>: \<open>version\<close> takes each query's version in list
  order, and the loop stops at the first that differs from \<open>VersionID()\<close>.
\<close>

fun first_version :: "VersionID \<Rightarrow> AsyncQuery list \<Rightarrow> VersionID" where
  "first_version v [] = v"
| "first_version v (query # rest) =
     (if vid_differs (q_version query) VersionID_default then q_version query
      else first_version (q_version query) rest)"

definition advance_to_ready ::
  "Storage \<Rightarrow> QueryOps \<Rightarrow> Realm \<Rightarrow> RealmCoordinator \<Rightarrow> Realm \<times> RealmCoordinator" where
  "advance_to_ready st ops realm c =
     (let v = first_version VersionID_default (m_queries c)
      in if vid_version v = 0
         then (transaction_advance st None realm, called [AdvanceHandle None] c)
         else if vid_less v (realm_version realm) then (realm, c)
         else
           let realm' = transaction_advance st (Some v) realm;
               delivered = map (deliver ops (realm_version realm') (m_async_error c)) (m_queries c);
               accepted = map snd (filter fst delivered)
           in (realm',
               called ([AdvanceHandle (Some v)]
                        @ map (\<lambda>q. Deliver (q_id q)) (m_queries c)
                        @ map (\<lambda>q. CallCallbacks (q_id q)) accepted)
                 (c\<lparr>m_queries := map snd delivered\<rparr>)))"

definition process_available_async ::
  "QueryOps \<Rightarrow> Realm \<Rightarrow> RealmCoordinator \<Rightarrow> Realm \<times> RealmCoordinator" where
  "process_available_async ops realm c =
     (let delivered = map (deliver ops (realm_version realm) (m_async_error c)) (m_queries c);
          accepted = map snd (filter fst delivered)
      in (realm,
          called (map (\<lambda>q. Deliver (q_id q)) (m_queries c)
                  @ map (\<lambda>q. CallCallbacks (q_id q)) accepted)
            (c\<lparr>m_queries := map snd delivered\<rparr>)))"

subsection \<open>Operations on a coordinator, in sequence\<close>

text \<open>
  A consumer dropping a query makes its \<open>is_alive()\<close> false; the coordinator sees this
  at its next sweep.
\<close>

definition query_dies :: "nat \<Rightarrow> RealmCoordinator \<Rightarrow> RealmCoordinator" where
  "query_dies qid c =
     c\<lparr>m_queries := map (\<lambda>q. if q_id q = qid then q\<lparr>q_alive := False\<rparr> else q) (m_queries c),
       m_new_queries := map (\<lambda>q. if q_id q = qid then q\<lparr>q_alive := False\<rparr> else q) (m_new_queries c)\<rparr>"

datatype coordinator_op =
    GetRealm Caller Config
  | PinVersion VersionID
  | RegisterQuery AsyncQuery
  | CleanUpDeadQueries
  | RunAsyncQueries
  | OnChange
  | AdvanceToReady Realm
  | ProcessAvailableAsync Realm
  | QueryDies nat

fun perform :: "Storage \<Rightarrow> QueryOps \<Rightarrow> coordinator_op \<Rightarrow> RealmCoordinator \<Rightarrow> error + RealmCoordinator" where
  "perform st ops (GetRealm who config) c =
     (case get_realm who config c of (Inl e, c') \<Rightarrow> Inl e | (Inr r, c') \<Rightarrow> Inr c')"
| "perform st ops (PinVersion v) c = pin_version st v c"
| "perform st ops (RegisterQuery q) c = register_query st q c"
| "perform st ops CleanUpDeadQueries c = Inr (clean_up_dead_queries c)"
| "perform st ops RunAsyncQueries c = run_async_queries st ops c"
| "perform st ops OnChange c = on_change st ops c"
| "perform st ops (AdvanceToReady realm) c = Inr (snd (advance_to_ready st ops realm c))"
| "perform st ops (ProcessAvailableAsync realm) c = Inr (snd (process_available_async ops realm c))"
| "perform st ops (QueryDies qid) c = Inr (query_dies qid c)"

text \<open>A sequence of operations, each with what the storage engine answers during it.\<close>

fun perform_all :: "QueryOps \<Rightarrow> (Storage \<times> coordinator_op) list \<Rightarrow> RealmCoordinator \<Rightarrow> error + RealmCoordinator" where
  "perform_all ops [] c = Inr c"
| "perform_all ops ((st, x) # rest) c =
     (case perform st ops x c of Inl e \<Rightarrow> Inl e | Inr c' \<Rightarrow> perform_all ops rest c')"

text \<open>
  Query methods that leave the query object as it is, \<open>deliver\<close> accepting: the
  collaborator used in the scenarios.
\<close>

definition QueryOps_inert :: QueryOps where
  "QueryOps_inert =
     \<lparr>run_query = (\<lambda>changes q. q), prepare_handover = (\<lambda>q. q),
      deliver = (\<lambda>v err q. (True, q)), attach_to = (\<lambda>v q. q), detatch = (\<lambda>q. q)\<rparr>"

text \<open>
  A call that opens a helper shared group, begins a read on one, advances one, or
  constructs an observer.
\<close>

fun opens_or_advances :: "call \<Rightarrow> bool" where
  "opens_or_advances (OpenSG h) = True"
| "opens_or_advances (BeginRead h v) = True"
| "opens_or_advances (AdvanceRead h v) = True"
| "opens_or_advances ObserverCreated = True"
| "opens_or_advances _ = False"

text \<open>
  The spec's reading of the target of \<open>advance_to_ready\<close>: the oldest version among
  the queries whose version is not the sentinel, if there is one.
\<close>

definition pinned :: "AsyncQuery \<Rightarrow> bool" where
  "pinned q = vid_differs (q_version q) VersionID_default"

definition oldest_pinned_version :: "AsyncQuery list \<Rightarrow> 64 word option" where
  "oldest_pinned_version qs =
     (case map (\<lambda>q. vid_version (q_version q)) (filter pinned qs) of
        [] \<Rightarrow> None
      | v # vs \<Rightarrow> Some (fold min vs v))"

section \<open>Properties of the observer's row bookkeeping\<close>

lemma plus_one_nonzero: "(i::size_t) \<noteq> - 1 \<Longrightarrow> i + 1 \<noteq> 0"
  by (simp add: add_eq_0_iff2)

lemma unat_plus_one: "(i::size_t) \<noteq> - 1 \<Longrightarrow> unat (i + 1) = Suc (unat i)"
  using unatSuc[of i] plus_one_nonzero[of i] by (simp add: add.commute)

lemma get_change_length: "i \<noteq> - 1 \<Longrightarrow> unat i < length (get_change i cs)"
  by (auto simp: get_change_def unat_plus_one)

lemma get_change_nth:
  "unat i < length (get_change i cs) \<Longrightarrow> get_change i cs ! unat i = table_change cs i"
  by (auto simp: get_change_def table_change_def nth_append split: if_splits)

lemma table_change_update: "unat i < length cs \<Longrightarrow> table_change (cs[unat i := x]) i = x"
  by (simp add: table_change_def)

text \<open>
  \<open>erase_rows\<close> on the selected table: the entry for \<open>row\<close> becomes the original index
  of the prior last row, \<open>deletions\<close> grows by one, \<open>changed\<close> stays.
\<close>

lemma observer_erase_rows_selected:
  assumes "m_current_table obs \<noteq> - 1"
  shows "\<exists>obs'. observer_erase_rows row n prior True obs = Inr (True, obs')
     \<and> m_current_table obs' = m_current_table obs
     \<and> selected_change obs' =
         (selected_change obs)
           \<lparr>moves := (moves (selected_change obs))
               (row \<mapsto> (case moves (selected_change obs) (prior - 1) of
                            Some orig \<Rightarrow> orig | None \<Rightarrow> prior - 1)),
            deletions := deletions (selected_change obs) + 1\<rparr>"
  using get_change_length[OF assms, of "m_changes obs"]
  by (simp add: observer_erase_rows_def selected_change_def current_table_def Let_def
        get_change_nth table_change_update)

lemma mark_dirty_selected:
  assumes "m_current_table obs \<noteq> - 1"
  shows "\<exists>obs'. mark_dirty row col obs = Inr (True, obs')
     \<and> m_current_table obs' = m_current_table obs
     \<and> selected_change obs' =
         (selected_change obs)
           \<lparr>changed := insert (case moves (selected_change obs) row of
                                 Some orig \<Rightarrow> orig | None \<Rightarrow> row)
                (changed (selected_change obs))\<rparr>"
  using get_change_length[OF assms, of "m_changes obs"]
  by (simp add: mark_dirty_def selected_change_def current_table_def Let_def
        get_change_nth table_change_update)

text \<open>
  Claim C1. On a table whose change state is empty and which had 4 rows,
  \<open>erase_rows(1, 1, 4, unordered = true)\<close> followed by a row mutation of row 1 (such as
  \<open>set_int(0, 1, _)\<close>) leaves \<open>deletions = 1\<close>, \<open>moves = {1 -> 3}\<close> and
  \<open>changed = {3}\<close>. In general \<open>erase_rows\<close> sets \<open>moves[row]\<close> to the original index of
  the prior last row (\<open>prior_num_rows - 1\<close>, looked up in \<open>moves\<close> first) and increments
  \<open>deletions\<close>, and a row mutation whose row has a \<open>moves\<close> entry adds the mapped
  original index to \<open>changed\<close>. The selected table's index is below \<open>2^64 - 1\<close>, as
  every index into a vector is.
\<close>

theorem swap_remove_bookkeeping:
  "(m_current_table obs \<noteq> - 1 \<and> selected_change obs = ChangeInfo_new \<longrightarrow>
      (\<exists>obs'. parse_log observer_handle [EraseRows 1 1 4 True, SetValue k 0 1] obs = Inr obs'
         \<and> selected_change obs' = \<lparr>changed = {3}, moves = [1 \<mapsto> 3], deletions = 1\<rparr>))
   \<and> (m_current_table obs \<noteq> - 1 \<longrightarrow>
      (\<exists>obs'. observer_handle (EraseRows row n prior True) obs = Inr (True, obs')
         \<and> moves (selected_change obs') =
             (moves (selected_change obs))
               (row \<mapsto> (case moves (selected_change obs) (prior - 1) of
                            Some orig \<Rightarrow> orig | None \<Rightarrow> prior - 1))
         \<and> deletions (selected_change obs') = deletions (selected_change obs) + 1
         \<and> changed (selected_change obs') = changed (selected_change obs)))
   \<and> (m_current_table obs \<noteq> - 1 \<and> moves (selected_change obs) row = Some orig \<longrightarrow>
      (\<exists>obs'. observer_handle (SetValue k col row) obs = Inr (True, obs')
         \<and> changed (selected_change obs') = insert orig (changed (selected_change obs))
         \<and> moves (selected_change obs') = moves (selected_change obs)
         \<and> deletions (selected_change obs') = deletions (selected_change obs)))"
proof (intro conjI impI)
  assume a: "m_current_table obs \<noteq> - 1 \<and> selected_change obs = ChangeInfo_new"
  from a obtain o1 where o1: "observer_erase_rows 1 1 4 True obs = Inr (True, o1)"
      "m_current_table o1 = m_current_table obs"
      "selected_change o1 = \<lparr>changed = {}, moves = [1 \<mapsto> 3], deletions = 1\<rparr>"
    using observer_erase_rows_selected[of obs 1 1 4] by (auto simp: ChangeInfo_new_def)
  from a o1 obtain o2 where o2: "mark_dirty 1 0 o1 = Inr (True, o2)"
      "selected_change o2 = \<lparr>changed = {3}, moves = [1 \<mapsto> 3], deletions = 1\<rparr>"
    using mark_dirty_selected[of o1 1 0] by auto
  show "\<exists>obs'. parse_log observer_handle [EraseRows 1 1 4 True, SetValue k 0 1] obs = Inr obs'
         \<and> selected_change obs' = \<lparr>changed = {3}, moves = [1 \<mapsto> 3], deletions = 1\<rparr>"
    using o1 o2 by simp
next
  assume a: "m_current_table obs \<noteq> - 1"
  show "\<exists>obs'. observer_handle (EraseRows row n prior True) obs = Inr (True, obs')
         \<and> moves (selected_change obs') =
             (moves (selected_change obs))
               (row \<mapsto> (case moves (selected_change obs) (prior - 1) of
                            Some orig \<Rightarrow> orig | None \<Rightarrow> prior - 1))
         \<and> deletions (selected_change obs') = deletions (selected_change obs) + 1
         \<and> changed (selected_change obs') = changed (selected_change obs)"
    using observer_erase_rows_selected[OF a, of row n prior] by auto
next
  assume a: "m_current_table obs \<noteq> - 1 \<and> moves (selected_change obs) row = Some orig"
  show "\<exists>obs'. observer_handle (SetValue k col row) obs = Inr (True, obs')
         \<and> changed (selected_change obs') = insert orig (changed (selected_change obs))
         \<and> moves (selected_change obs') = moves (selected_change obs)
         \<and> deletions (selected_change obs') = deletions (selected_change obs)"
    using mark_dirty_selected[of obs row col] a by auto
qed

theorem swap_remove_bookkeeping_witness:
  "m_current_table TransactLogObserver_new \<noteq> - 1
   \<and> selected_change TransactLogObserver_new = ChangeInfo_new
   \<and> (\<exists>obs'. parse_log observer_handle [EraseRows 1 1 4 True, SetValue Set_int 0 1]
                TransactLogObserver_new = Inr obs'
         \<and> selected_change obs' = \<lparr>changed = {3}, moves = [1 \<mapsto> 3], deletions = 1\<rparr>)
   \<and> moves (selected_change (TransactLogObserver_new\<lparr>m_changes :=
          [\<lparr>changed = {}, moves = [1 \<mapsto> 3], deletions = 1\<rparr>]\<rparr>)) 1 = Some 3
   \<and> (\<exists>obs'. observer_handle (SetValue Set_int 0 1)
         (TransactLogObserver_new\<lparr>m_changes := [\<lparr>changed = {}, moves = [1 \<mapsto> 3], deletions = 1\<rparr>]\<rparr>)
           = Inr (True, obs')
         \<and> changed (selected_change obs') = {3})"
proof -
  have h1: "m_current_table TransactLogObserver_new \<noteq> - 1"
    by (simp add: TransactLogObserver_new_def)
  have h2: "selected_change TransactLogObserver_new = ChangeInfo_new"
    by (simp add: TransactLogObserver_new_def selected_change_def table_change_def)
  have h3: "moves (selected_change (TransactLogObserver_new\<lparr>m_changes :=
          [\<lparr>changed = {}, moves = [1 \<mapsto> 3], deletions = 1\<rparr>]\<rparr>)) 1 = Some 3"
    by (simp add: TransactLogObserver_new_def selected_change_def table_change_def current_table_def)
  have h4: "changed (selected_change (TransactLogObserver_new\<lparr>m_changes :=
          [\<lparr>changed = {}, moves = [1 \<mapsto> 3], deletions = 1\<rparr>]\<rparr>)) = {}"
    by (simp add: TransactLogObserver_new_def selected_change_def table_change_def current_table_def)
  have h5: "m_current_table (TransactLogObserver_new\<lparr>m_changes :=
          [\<lparr>changed = {}, moves = [1 \<mapsto> 3], deletions = 1\<rparr>]\<rparr>) \<noteq> - 1"
    by (simp add: TransactLogObserver_new_def)
  let ?W = "TransactLogObserver_new\<lparr>m_changes :=
          [\<lparr>changed = {}, moves = [1 \<mapsto> 3], deletions = 1\<rparr>]\<rparr>"
  from swap_remove_bookkeeping[of TransactLogObserver_new Set_int 1 1 4 3 0] h1 h2
  have a: "\<exists>obs'. parse_log observer_handle [EraseRows 1 1 4 True, SetValue Set_int 0 1]
                TransactLogObserver_new = Inr obs'
         \<and> selected_change obs' = \<lparr>changed = {3}, moves = [1 \<mapsto> 3], deletions = 1\<rparr>"
    by blast
  from swap_remove_bookkeeping[of ?W Set_int 1 1 4 3 0] h3 h5
  have "\<exists>obs'. observer_handle (SetValue Set_int 0 1) ?W = Inr (True, obs')
         \<and> changed (selected_change obs') = insert 3 (changed (selected_change ?W))"
    by blast
  then have b: "\<exists>obs'. observer_handle (SetValue Set_int 0 1) ?W = Inr (True, obs')
         \<and> changed (selected_change obs') = {3}"
    by (simp only: h4)
  show ?thesis
    using h1 h2 h3 a b by blast
qed

section \<open>Properties of the validator\<close>

text \<open>
  Claim C4. The validator accepts adding and removing a search index on any table and
  the creation of a top-level table. It accepts \<open>insert_column\<close>,
  \<open>insert_link_column\<close>, \<open>add_primary_key\<close> and \<open>set_link_type\<close> exactly when the
  selected table is in \<open>m_new_tables\<close> and throws the schema-mismatch error otherwise.
  Erasing or renaming a table, erasing a column or link column, renaming a column,
  removing the primary key, moving a column and moving a table always throw it.
  \<open>select_descriptor\<close> with a non-zero level returns \<open>false\<close>, which ends the parse.
\<close>

theorem validator_schema_policy:
  "validator_handle (AddSearchIndex c) v = Inr (True, v)
   \<and> validator_handle (RemoveSearchIndex c) v = Inr (True, v)
   \<and> (\<exists>v'. validator_handle (InsertGroupLevelTable t n name) v = Inr (True, v'))
   \<and> (m_current_table v \<in> set (m_new_tables v) \<longrightarrow>
        validator_handle (InsertColumn c name nullable) v = Inr (True, v)
        \<and> validator_handle (InsertLinkColumn c name t bc) v = Inr (True, v)
        \<and> validator_handle (AddPrimaryKey c) v = Inr (True, v)
        \<and> validator_handle (SetLinkType c) v = Inr (True, v))
   \<and> (m_current_table v \<notin> set (m_new_tables v) \<longrightarrow>
        validator_handle (InsertColumn c name nullable) v = Inl SchemaMismatch
        \<and> validator_handle (InsertLinkColumn c name t bc) v = Inl SchemaMismatch
        \<and> validator_handle (AddPrimaryKey c) v = Inl SchemaMismatch
        \<and> validator_handle (SetLinkType c) v = Inl SchemaMismatch)
   \<and> validator_handle (EraseGroupLevelTable t n) v = Inl SchemaMismatch
   \<and> validator_handle (RenameGroupLevelTable t name) v = Inl SchemaMismatch
   \<and> validator_handle (EraseColumn c) v = Inl SchemaMismatch
   \<and> validator_handle (EraseLinkColumn c t bc) v = Inl SchemaMismatch
   \<and> validator_handle (RenameColumn c name) v = Inl SchemaMismatch
   \<and> validator_handle RemovePrimaryKey v = Inl SchemaMismatch
   \<and> validator_handle (MoveColumn a b) v = Inl SchemaMismatch
   \<and> validator_handle (MoveGroupLevelTable a b) v = Inl SchemaMismatch
   \<and> (levels \<noteq> 0 \<longrightarrow>
        validator_handle (SelectDescriptor levels) v = Inr (False, v)
        \<and> parse_log validator_handle (SelectDescriptor levels # rest) v = Inl BadTransactLog)"
  by (simp add: add_search_index_def remove_search_index_def
        validator_insert_group_level_table_def insert_column_def insert_link_column_def
        add_primary_key_def set_link_type_def schema_error_unless_new_table_def
        schema_error_def erase_group_level_table_def rename_group_level_table_def
        erase_column_def erase_link_column_def rename_column_def remove_primary_key_def
        move_column_def move_group_level_table_def select_descriptor_def)

theorem validator_schema_policy_witness:
  "m_current_table \<lparr>m_current_table = 0, m_new_tables = [0]\<rparr>
       \<in> set (m_new_tables \<lparr>m_current_table = 0, m_new_tables = [0]\<rparr>)
   \<and> validator_handle (InsertColumn 0 ''x'' False) \<lparr>m_current_table = 0, m_new_tables = [0]\<rparr>
       = Inr (True, \<lparr>m_current_table = 0, m_new_tables = [0]\<rparr>)
   \<and> m_current_table \<lparr>m_current_table = 0, m_new_tables = []\<rparr>
       \<notin> set (m_new_tables \<lparr>m_current_table = 0, m_new_tables = []\<rparr>)
   \<and> validator_handle (InsertColumn 0 ''x'' False) \<lparr>m_current_table = 0, m_new_tables = []\<rparr>
       = Inl SchemaMismatch
   \<and> (1::int) \<noteq> 0
   \<and> validator_handle (SelectDescriptor 1) \<lparr>m_current_table = 0, m_new_tables = []\<rparr>
       = Inr (False, \<lparr>m_current_table = 0, m_new_tables = []\<rparr>)"
  using validator_schema_policy[where v="\<lparr>m_current_table = 0, m_new_tables = [0]\<rparr>"
      and c=0 and name="''x''" and nullable=False and levels=1]
   validator_schema_policy[where v="\<lparr>m_current_table = 0, m_new_tables = []\<rparr>"
      and c=0 and name="''x''" and nullable=False and levels=1]
  by simp

section \<open>The observer and new tables\<close>

text \<open>
  Claim C9. The observer's \<open>insert_group_level_table\<close> returns \<open>false\<close> in every
  state (the validator's returns \<open>true\<close>), so parsing a log that holds this instruction
  with the observer never ends with a change set: it ends with an error.
\<close>

theorem observer_rejects_new_table:
  "observer_handle (InsertGroupLevelTable t n name) obs = Inr (False, obs)
   \<and> (\<exists>v'. validator_handle (InsertGroupLevelTable t n name) v = Inr (True, v'))
   \<and> (InsertGroupLevelTable t n name \<in> set log \<longrightarrow>
         (\<exists>e. parse_log observer_handle log obs = Inl e))"
proof (intro conjI impI)
  show "observer_handle (InsertGroupLevelTable t n name) obs = Inr (False, obs)"
    by (simp add: observer_insert_group_level_table_def)
  show "\<exists>v'. validator_handle (InsertGroupLevelTable t n name) v = Inr (True, v')"
    by (simp add: validator_insert_group_level_table_def)
  assume "InsertGroupLevelTable t n name \<in> set log"
  then show "\<exists>e. parse_log observer_handle log obs = Inl e"
  proof (induction log arbitrary: obs)
    case Nil
    then show ?case by simp
  next
    case (Cons i rest)
    show ?case
    proof (cases "observer_handle i obs")
      case (Inl e)
      then show ?thesis by simp
    next
      case (Inr r)
      obtain ok obs' where r: "r = (ok, obs')" by (cases r)
      show ?thesis
      proof (cases ok)
        case False
        with Inr r show ?thesis by simp
      next
        case True
        with Inr r have "i \<noteq> InsertGroupLevelTable t n name"
          by (auto simp: observer_insert_group_level_table_def)
        with Cons.prems have "InsertGroupLevelTable t n name \<in> set rest" by simp
        from Cons.IH[OF this, of obs'] Inr r True show ?thesis by simp
      qed
    qed
  qed
qed

theorem observer_rejects_new_table_witness:
  "InsertGroupLevelTable 0 1 ''New'' \<in> set [SelectTable 0 0, InsertGroupLevelTable 0 1 ''New'']
   \<and> (\<exists>e. parse_log observer_handle [SelectTable 0 0, InsertGroupLevelTable 0 1 ''New'']
             TransactLogObserver_new = Inl e)"
  using observer_rejects_new_table[of 0 1 "''New''" TransactLogObserver_new _
      "[SelectTable 0 0, InsertGroupLevelTable 0 1 ''New'']"]
  by simp

text \<open>
  Claim C10. The validator's \<open>insert_group_level_table(table_ndx)\<close> increments every
  recorded new-table index that is \<open>\<ge> table_ndx\<close> and then records \<open>table_ndx\<close>, so
  \<open>m_new_tables\<close> keeps naming the tables created in the transaction: after another
  table is inserted, a column insertion into a table created earlier (selected at its
  index after the insertion, \<open>t + 1\<close> when the new table came before it) is still
  accepted.
\<close>

theorem new_tables_track_insertions:
  "validator_handle (InsertGroupLevelTable k n name) v =
      Inr (True, v\<lparr>m_new_tables := map (table_after_insert k) (m_new_tables v) @ [k]\<rparr>)
   \<and> (t \<in> set (m_new_tables v) \<longrightarrow>
        (\<exists>v'. parse_log validator_handle
                 [InsertGroupLevelTable k n name, SelectTable (table_after_insert k t) 0,
                  InsertColumn c cname nullable] v = Inr v'))
   \<and> (t \<in> set (m_new_tables v) \<and> k \<le> t \<longrightarrow>
        (\<exists>v'. parse_log validator_handle
                 [InsertGroupLevelTable k n name, SelectTable (t + 1) 0,
                  InsertColumn c cname nullable] v = Inr v'))"
proof -
  let ?v' = "v\<lparr>m_new_tables := map (table_after_insert k) (m_new_tables v) @ [k]\<rparr>"
  have step: "validator_handle (InsertGroupLevelTable k n name) v = Inr (True, ?v')"
    by (simp add: validator_insert_group_level_table_def table_after_insert_def)
  have acc: "\<exists>v'. parse_log validator_handle
                 [InsertGroupLevelTable k n name, SelectTable (table_after_insert k t) 0,
                  InsertColumn c cname nullable] v = Inr v'"
    if "t \<in> set (m_new_tables v)"
    using that step
    by (simp add: select_table_def insert_column_def schema_error_unless_new_table_def)
  have "table_after_insert k t = t + 1" if "k \<le> t"
    using that by (simp add: table_after_insert_def)
  with step acc show ?thesis by auto
qed

theorem new_tables_track_insertions_witness:
  "(1::size_t) \<in> set (m_new_tables \<lparr>m_current_table = 0, m_new_tables = [1]\<rparr>)
   \<and> (0::size_t) \<le> 1
   \<and> (\<exists>v'. parse_log validator_handle
                 [InsertGroupLevelTable 0 2 ''B'', SelectTable (1 + 1) 0,
                  InsertColumn 0 ''x'' False] \<lparr>m_current_table = 0, m_new_tables = [1]\<rparr> = Inr v')"
proof -
  have h: "(1::size_t) \<in> set (m_new_tables \<lparr>m_current_table = 0, m_new_tables = [1]\<rparr>)
             \<and> (0::size_t) \<le> 1"
    by simp
  from new_tables_track_insertions[where v="\<lparr>m_current_table = 0, m_new_tables = [1]\<rparr>"
      and t=1 and k=0 and n=2 and name="''B''" and c=0 and cname="''x''" and nullable=False] h
  have "\<exists>v'. parse_log validator_handle
                 [InsertGroupLevelTable 0 2 ''B'', SelectTable (1 + 1) 0,
                  InsertColumn 0 ''x'' False] \<lparr>m_current_table = 0, m_new_tables = [1]\<rparr> = Inr v'"
    by blast
  with h show ?thesis by blast
qed

section \<open>Properties of the observer's link-list bookkeeping\<close>

subsection \<open>What the handlers do to the two sets\<close>














subsection \<open>The observers the coordinator constructs\<close>








subsection \<open>Insert, insert, erase\<close>




section \<open>Properties of the coordinator\<close>

lemma find_cached_nonempty: "find_cached tid xs = Some r \<Longrightarrow> xs \<noteq> []"
  by (cases xs) simp_all

lemma open_or_reuse_cached:
  assumes "open_or_reuse who config c = (Inr r, c')"
  shows "m_config c' = m_config c \<and> m_notifier c' = m_notifier c \<and> m_cached_realms c' \<noteq> []"
proof (cases "if cache config then find_cached (caller_thread who) (m_cached_realms c) else None")
  case (Some x)
  then have "find_cached (caller_thread who) (m_cached_realms c) = Some x"
    by (simp split: if_splits)
  then have "m_cached_realms c \<noteq> []" by (rule find_cached_nonempty)
  moreover from assms Some have "c' = c" by (simp add: open_or_reuse_def)
  ultimately show ?thesis by simp
next
  case None
  with assms show ?thesis
    by (cases "new_realm who") (auto simp: open_or_reuse_def)
qed

text \<open>
  Claim C6. When the coordinator holds a captured configuration, \<open>get_realm\<close> with a
  configuration that differs in the read-only flag, the in-memory flag, the encryption
  key or (unless the incoming schema version is \<open>NotVersioned\<close>) the schema version
  throws the mismatched-configuration error and leaves the coordinator as it was. In
  particular, on a coordinator without notifier and handles, a successful read-only
  \<open>get_realm\<close> followed by a \<open>get_realm\<close> that asks for the same configuration
  read-write makes the second call throw it. Every \<open>get_realm\<close> that returns a handle
  leaves the coordinator holding a configuration, so the call after it throws whenever
  its configuration differs in one of these ways.
\<close>

theorem get_realm_mismatch:
  "(holds_config c \<and> config_mismatch (m_config c) config
      \<longrightarrow> get_realm who config c = (Inl MismatchedConfig, c))
   \<and> (get_realm who config c = (Inr r, c1) \<longrightarrow> holds_config c1)
   \<and> (get_realm who config c = (Inr r, c1) \<and> config_mismatch (m_config c1) config'
      \<longrightarrow> get_realm who' config' c1 = (Inl MismatchedConfig, c1))
   \<and> (\<not> m_notifier c \<and> m_cached_realms c = [] \<and> read_only config
       \<and> new_realm who = Inr r
      \<longrightarrow> (\<exists>c2. get_realm who config c = (Inr r, c2)
            \<and> get_realm who' (config\<lparr>read_only := False\<rparr>) c2 = (Inl MismatchedConfig, c2)))"
proof -
  have mismatch: "get_realm w cfg x = (Inl MismatchedConfig, x)"
    if "holds_config x" "config_mismatch (m_config x) cfg" for w cfg x
    using that by (auto simp: holds_config_def config_mismatch_def get_realm_def)
  have holds: "holds_config c1" if g: "get_realm who config c = (Inr r, c1)"
  proof (cases "holds_config c")
    case True
    with g have "open_or_reuse who config c = (Inr r, c1)"
      by (auto simp: get_realm_def holds_config_def split: if_splits)
    from open_or_reuse_cached[OF this] True show ?thesis
      by (auto simp: holds_config_def)
  next
    case False
    then have cap: "(\<not> read_only (m_config c) \<and> \<not> m_notifier c)
         \<or> (read_only (m_config c) \<and> m_cached_realms c = [])"
      by (simp add: holds_config_def)
    show ?thesis
    proof (cases "\<not> read_only config \<and> \<not> m_notifier c")
      case True
      with g cap have "open_or_reuse who config (c\<lparr>m_config := config, m_notifier := True\<rparr>) = (Inr r, c1)"
        by (auto simp: get_realm_def Let_def split: if_splits)
      from open_or_reuse_cached[OF this] True show ?thesis
        by (auto simp: holds_config_def)
    next
      case False
      with g cap have o: "open_or_reuse who config (c\<lparr>m_config := config\<rparr>) = (Inr r, c1)"
        by (auto simp: get_realm_def Let_def split: if_splits)
      from open_or_reuse_cached[OF o] False show ?thesis
        by (auto simp: holds_config_def)
    qed
  qed
  have s4: "\<exists>c2. get_realm who config c = (Inr r, c2)
            \<and> get_realm who' (config\<lparr>read_only := False\<rparr>) c2 = (Inl MismatchedConfig, c2)"
    if a: "\<not> m_notifier c \<and> m_cached_realms c = [] \<and> read_only config \<and> new_realm who = Inr r"
  proof -
    let ?c2 = "c\<lparr>m_config := config, m_cached_realms :=
                  [\<lparr>cr_realm = r, cr_thread = caller_thread who,
                    cr_cache = cache config, cr_expired = False\<rparr>]\<rparr>"
    from a have 1: "get_realm who config c = (Inr r, ?c2)"
      by (auto simp: get_realm_def open_or_reuse_def Let_def)
    from a have 2: "get_realm who' (config\<lparr>read_only := False\<rparr>) ?c2 = (Inl MismatchedConfig, ?c2)"
      by (simp add: get_realm_def)
    from 1 2 show ?thesis by blast
  qed
  from mismatch holds s4 show ?thesis by blast
qed



theorem get_realm_mismatch_witness:
  "holds_config (RealmCoordinator_new
       \<lparr>m_config := Config_new\<lparr>path := ''/p'', read_only := True\<rparr>,
        m_cached_realms := [\<lparr>cr_realm = 7, cr_thread = 1, cr_cache = True, cr_expired = False\<rparr>]\<rparr>)
   \<and> config_mismatch
        (m_config (RealmCoordinator_new
           \<lparr>m_config := Config_new\<lparr>path := ''/p'', read_only := True\<rparr>,
            m_cached_realms := [\<lparr>cr_realm = 7, cr_thread = 1, cr_cache = True, cr_expired = False\<rparr>]\<rparr>))
        (Config_new\<lparr>path := ''/p''\<rparr>)
   \<and> get_realm \<lparr>caller_thread = 1, notifier_ok = True, new_realm = Inr 8\<rparr>
        (Config_new\<lparr>path := ''/p''\<rparr>)
        (RealmCoordinator_new
           \<lparr>m_config := Config_new\<lparr>path := ''/p'', read_only := True\<rparr>,
            m_cached_realms := [\<lparr>cr_realm = 7, cr_thread = 1, cr_cache = True, cr_expired = False\<rparr>]\<rparr>)
      = (Inl MismatchedConfig,
         RealmCoordinator_new
           \<lparr>m_config := Config_new\<lparr>path := ''/p'', read_only := True\<rparr>,
            m_cached_realms := [\<lparr>cr_realm = 7, cr_thread = 1, cr_cache = True, cr_expired = False\<rparr>]\<rparr>)"
proof -
  let ?c = "RealmCoordinator_new
       \<lparr>m_config := Config_new\<lparr>path := ''/p'', read_only := True\<rparr>,
        m_cached_realms := [\<lparr>cr_realm = 7, cr_thread = 1, cr_cache = True, cr_expired = False\<rparr>]\<rparr>"
  have h1: "holds_config ?c"
    by (simp add: holds_config_def RealmCoordinator_new_def Config_new_def)
  have h2: "config_mismatch (m_config ?c) (Config_new\<lparr>path := ''/p''\<rparr>)"
    by (simp add: config_mismatch_def RealmCoordinator_new_def Config_new_def)
  from get_realm_mismatch[of ?c "Config_new\<lparr>path := ''/p''\<rparr>"
      "\<lparr>caller_thread = 1, notifier_ok = True, new_realm = Inr 8\<rparr>"] h1 h2
  have "get_realm \<lparr>caller_thread = 1, notifier_ok = True, new_realm = Inr 8\<rparr>
        (Config_new\<lparr>path := ''/p''\<rparr>) ?c = (Inl MismatchedConfig, ?c)"
    by blast
  with h1 h2 show ?thesis by blast
qed

subsection \<open>Sweeping dead queries\<close>

lemma swap_remove_step_take:
  assumes "i < length xs"
  shows "take i (butlast (if length xs > i + 1 then xs[i := last xs] else xs)) = take i xs"
proof (cases "length xs > i + 1")
  case True
  then show ?thesis by (simp add: take_butlast)
next
  case False
  with assms show ?thesis by (simp add: take_butlast butlast_conv_take)
qed

lemma swap_remove_step_drop:
  assumes "i < length xs"
  shows "mset (drop i (butlast (if length xs > i + 1 then xs[i := last xs] else xs)))
           = mset (drop (Suc i) xs)"
proof (cases "length xs > i + 1")
  case False
  with assms have "length xs = Suc i" by simp
  then show ?thesis using False by (simp add: butlast_conv_take)
next
  case True
  define ys where "ys = butlast (drop (Suc i) xs)"
  define l where "l = last (drop (Suc i) xs)"
  from True have "drop (Suc i) xs \<noteq> []" by simp
  then have d: "drop (Suc i) xs = ys @ [l]"
    unfolding ys_def l_def by (rule append_butlast_last_id[symmetric])
  from True have lx: "last xs = l"
    by (simp add: l_def)
  have len: "length (take i xs) = i"
    using assms by simp
  have "xs[i := l] = take i xs @ l # drop (Suc i) xs"
    using assms by (rule upd_conv_take_nth_drop)
  then have "xs[i := l] = (take i xs @ l # ys) @ [l]"
    by (simp add: d)
  then have "butlast (xs[i := l]) = take i xs @ l # ys"
    by (simp only: butlast_snoc)
  then have "drop i (butlast (xs[i := l])) = l # ys"
    using len by simp
  then have "mset (drop i (butlast (xs[i := l]))) = mset (ys @ [l])"
    by simp
  with True lx d show ?thesis by simp
qed

lemma swap_remove_from_mset:
  "mset (fst (swap_remove_from i xs d r)) = mset (take i xs) + filter_mset q_alive (mset (drop i xs))"
proof (induction i xs d r rule: swap_remove_from.induct)
  case (1 i container did_remove released)
  show ?case
  proof (cases "i < length container")
    case False
    then show ?thesis by (simp add: swap_remove_from.simps[of i container])
  next
    case True
    note lt = this
    have split: "drop i container = container ! i # drop (Suc i) container"
      using lt by (simp add: Cons_nth_drop_Suc)
    show ?thesis
    proof (cases "q_alive (container ! i)")
      case True
      with lt "1.IH"(1) show ?thesis
        by (subst swap_remove_from.simps) (simp add: take_Suc_conv_app_nth split)
    next
      case False
      with lt "1.IH"(2) swap_remove_step_take[OF lt] swap_remove_step_drop[OF lt]
      show ?thesis
        by (subst swap_remove_from.simps) (simp add: split)
    qed
  qed
qed

lemma swap_remove_mset: "mset (fst (swap_remove xs)) = filter_mset q_alive (mset xs)"
  by (simp add: swap_remove_def swap_remove_from_mset)

lemma swap_remove_from_released:
  "mset (snd (snd (swap_remove_from i xs d r)))
     = mset r + image_mset q_id (filter_mset (\<lambda>q. \<not> q_alive q) (mset (drop i xs)))"
proof (induction i xs d r rule: swap_remove_from.induct)
  case (1 i container did_remove released)
  show ?case
  proof (cases "i < length container")
    case False
    then show ?thesis by (simp add: swap_remove_from.simps[of i container])
  next
    case True
    note lt = this
    have split: "drop i container = container ! i # drop (Suc i) container"
      using lt by (simp add: Cons_nth_drop_Suc)
    show ?thesis
    proof (cases "q_alive (container ! i)")
      case True
      with lt "1.IH"(1) show ?thesis
        by (subst swap_remove_from.simps) (simp add: split)
    next
      case False
      with lt "1.IH"(2) swap_remove_step_drop[OF lt]
      show ?thesis
        by (subst swap_remove_from.simps) (simp add: split)
    qed
  qed
qed

lemma swap_remove_from_did_remove:
  "fst (snd (swap_remove_from i xs d r)) = (d \<or> (\<exists>q \<in> set (drop i xs). \<not> q_alive q))"
proof (induction i xs d r rule: swap_remove_from.induct)
  case (1 i container did_remove released)
  show ?case
  proof (cases "i < length container")
    case False
    then show ?thesis by (simp add: swap_remove_from.simps[of i container])
  next
    case True
    note lt = this
    have split: "drop i container = container ! i # drop (Suc i) container"
      using lt by (simp add: Cons_nth_drop_Suc)
    show ?thesis
    proof (cases "q_alive (container ! i)")
      case True
      with lt "1.IH"(1) show ?thesis
        by (subst swap_remove_from.simps) (simp add: split)
    next
      case False
      with lt "1.IH"(2) show ?thesis
        by (subst swap_remove_from.simps) (simp add: split)
    qed
  qed
qed

lemma clean_up_async_error: "m_async_error (clean_up_dead_queries c) = m_async_error c"
  by (simp add: clean_up_dead_queries_def Let_def called_def case_prod_beta)

lemma clean_up_queries:
  "mset (m_queries (clean_up_dead_queries c)) = filter_mset q_alive (mset (m_queries c))"
  by (simp add: clean_up_dead_queries_def Let_def called_def case_prod_beta swap_remove_mset)

lemma clean_up_new_queries:
  "mset (m_new_queries (clean_up_dead_queries c)) = filter_mset q_alive (mset (m_new_queries c))"
  by (simp add: clean_up_dead_queries_def Let_def called_def case_prod_beta swap_remove_mset)

lemma clean_up_calls:
  "\<exists>extra. calls (clean_up_dead_queries c) = calls c @ extra
      \<and> list_all (\<lambda>x. \<not> opens_or_advances x) extra"
  by (auto simp: clean_up_dead_queries_def Let_def called_def case_prod_beta list_all_iff)

lemma clean_up_query_sg:
  "map_option sg_version (m_query_sg (clean_up_dead_queries c)) = map_option sg_version (m_query_sg c)"
  by (simp add: clean_up_dead_queries_def Let_def called_def case_prod_beta end_read_if_def
        end_read_def option.map_comp comp_def)

lemma clean_up_advancer_sg:
  "map_option sg_version (m_advancer_sg (clean_up_dead_queries c)) = map_option sg_version (m_advancer_sg c)"
  by (simp add: clean_up_dead_queries_def Let_def called_def case_prod_beta end_read_if_def
        end_read_def option.map_comp comp_def)

lemma run_async_queries_with_error:
  assumes "m_async_error c = Some e"
  shows "run_async_queries st ops c = Inr (move_new_queries_to_main (clean_up_dead_queries c))"
proof -
  let ?c1 = "clean_up_dead_queries c"
  have e1: "m_async_error ?c1 = Some e"
    using assms by (simp add: clean_up_async_error)
  show ?thesis
  proof (cases "m_queries ?c1 = [] \<and> m_new_queries ?c1 = []")
    case True
    then have "move_new_queries_to_main ?c1 = ?c1"
      by (simp add: move_new_queries_to_main_def)
    with True show ?thesis
      by (simp add: run_async_queries_def Let_def)
  next
    case False
    with e1 show ?thesis
      by (auto simp: run_async_queries_def Let_def)
  qed
qed

lemma perform_keeps_async_error:
  assumes "m_async_error c = Some e" and "perform st ops x c = Inr c'"
  shows "m_async_error c' = Some e"
proof (cases x)
  case (GetRealm who config)
  with assms show ?thesis
    by (auto simp: get_realm_def open_or_reuse_def Let_def
          split: prod.splits sum.splits if_splits option.splits)
next
  case (PinVersion v)
  with assms show ?thesis by (auto simp: pin_version_def)
next
  case (RegisterQuery q)
  with assms show ?thesis by (auto simp: register_query_def pin_version_def)
next
  case CleanUpDeadQueries
  with assms show ?thesis by (auto simp: clean_up_async_error)
next
  case RunAsyncQueries
  with assms show ?thesis
    by (auto simp: run_async_queries_with_error move_new_queries_to_main_def clean_up_async_error)
next
  case OnChange
  with assms show ?thesis
    by (auto simp: on_change_def run_async_queries_with_error move_new_queries_to_main_def
          clean_up_async_error called_def)
next
  case (AdvanceToReady realm)
  with assms show ?thesis
    by (auto simp: advance_to_ready_def Let_def called_def)
next
  case (ProcessAvailableAsync realm)
  with assms show ?thesis
    by (auto simp: process_available_async_def Let_def called_def)
next
  case (QueryDies qid)
  with assms show ?thesis by (auto simp: query_dies_def)
qed

lemma perform_all_keeps_async_error:
  "m_async_error c = Some e \<Longrightarrow> perform_all ops xs c = Inr c' \<Longrightarrow> m_async_error c' = Some e"
proof (induction xs arbitrary: c)
  case Nil
  then show ?case by simp
next
  case (Cons a xs)
  obtain st x where a: "a = (st, x)" by (cases a)
  from Cons.prems(2) a obtain mid where
    mid: "perform st ops x c = Inr mid" "perform_all ops xs mid = Inr c'"
    by (auto split: sum.splits)
  from perform_keeps_async_error[OF Cons.prems(1) mid(1)]
  have "m_async_error mid = Some e" .
  from Cons.IH[OF this mid(2)] show ?case .
qed

text \<open>
  Claim C7. Once \<open>m_async_error\<close> is set, no operation on the coordinator clears it;
  \<open>pin_version\<close> returns at once and leaves the coordinator, the advancer snapshot
  included, as it is; and \<open>run_async_queries\<close>, after its sweep of dead queries, moves
  every pending query from \<open>m_new_queries\<close> to \<open>m_queries\<close> and returns: it opens no
  helper shared group, begins no read, advances no snapshot and constructs no observer
  (all it may call is \<open>release_query\<close> and \<open>end_read\<close>, in the sweep), and both
  helper snapshots stay at their versions.
\<close>

theorem async_error_is_sticky:
  "m_async_error c = Some e \<longrightarrow>
     pin_version st v c = Inr c
     \<and> (\<exists>c'. run_async_queries st ops c = Inr c'
           \<and> c' = move_new_queries_to_main (clean_up_dead_queries c)
           \<and> m_async_error c' = Some e
           \<and> m_new_queries c' = []
           \<and> mset (m_queries c') = filter_mset q_alive (mset (m_queries c) + mset (m_new_queries c))
           \<and> (\<exists>extra. calls c' = calls c @ extra \<and> list_all (\<lambda>x. \<not> opens_or_advances x) extra)
           \<and> map_option sg_version (m_query_sg c') = map_option sg_version (m_query_sg c)
           \<and> map_option sg_version (m_advancer_sg c') = map_option sg_version (m_advancer_sg c))
     \<and> (perform_all ops xs c = Inr c'' \<longrightarrow> m_async_error c'' = Some e)"
proof (intro impI conjI)
  assume a: "m_async_error c = Some e"
  then show "pin_version st v c = Inr c"
    by (simp add: pin_version_def)
  let ?c' = "move_new_queries_to_main (clean_up_dead_queries c)"
  have "run_async_queries st ops c = Inr ?c'"
    using a by (rule run_async_queries_with_error)
  moreover have "m_async_error ?c' = Some e"
    using a by (simp add: move_new_queries_to_main_def clean_up_async_error)
  moreover have "m_new_queries ?c' = []"
    by (simp add: move_new_queries_to_main_def)
  moreover have "mset (m_queries ?c') = filter_mset q_alive (mset (m_queries c) + mset (m_new_queries c))"
    by (simp add: move_new_queries_to_main_def clean_up_queries clean_up_new_queries)
  moreover have "\<exists>extra. calls ?c' = calls c @ extra \<and> list_all (\<lambda>x. \<not> opens_or_advances x) extra"
    using clean_up_calls[of c] by (simp add: move_new_queries_to_main_def)
  moreover have "map_option sg_version (m_query_sg ?c') = map_option sg_version (m_query_sg c)"
    by (simp add: move_new_queries_to_main_def clean_up_query_sg)
  moreover have "map_option sg_version (m_advancer_sg ?c') = map_option sg_version (m_advancer_sg c)"
    by (simp add: move_new_queries_to_main_def clean_up_advancer_sg)
  ultimately show "\<exists>c'. run_async_queries st ops c = Inr c'
           \<and> c' = move_new_queries_to_main (clean_up_dead_queries c)
           \<and> m_async_error c' = Some e
           \<and> m_new_queries c' = []
           \<and> mset (m_queries c') = filter_mset q_alive (mset (m_queries c) + mset (m_new_queries c))
           \<and> (\<exists>extra. calls c' = calls c @ extra \<and> list_all (\<lambda>x. \<not> opens_or_advances x) extra)
           \<and> map_option sg_version (m_query_sg c') = map_option sg_version (m_query_sg c)
           \<and> map_option sg_version (m_advancer_sg c') = map_option sg_version (m_advancer_sg c)"
    by blast
  assume "perform_all ops xs c = Inr c''"
  with a show "m_async_error c'' = Some e"
    by (rule perform_all_keeps_async_error)
qed

theorem async_error_is_sticky_witness:
  "m_async_error (RealmCoordinator_new
       \<lparr>m_new_queries := [\<lparr>q_id = 0, q_version = \<lparr>vid_version = 5, vid_index = 0\<rparr>, q_alive = True\<rparr>],
        m_async_error := Some OpenFailed\<rparr>) = Some OpenFailed
   \<and> pin_version \<lparr>open_outcome = Opened, latest_version = \<lparr>vid_version = 6, vid_index = 0\<rparr>, pending_log = []\<rparr>
        \<lparr>vid_version = 6, vid_index = 0\<rparr>
        (RealmCoordinator_new
          \<lparr>m_new_queries := [\<lparr>q_id = 0, q_version = \<lparr>vid_version = 5, vid_index = 0\<rparr>, q_alive = True\<rparr>],
           m_async_error := Some OpenFailed\<rparr>)
      = Inr (RealmCoordinator_new
          \<lparr>m_new_queries := [\<lparr>q_id = 0, q_version = \<lparr>vid_version = 5, vid_index = 0\<rparr>, q_alive = True\<rparr>],
           m_async_error := Some OpenFailed\<rparr>)
   \<and> run_async_queries \<lparr>open_outcome = Opened, latest_version = \<lparr>vid_version = 6, vid_index = 0\<rparr>, pending_log = []\<rparr>
        QueryOps_inert
        (RealmCoordinator_new
          \<lparr>m_new_queries := [\<lparr>q_id = 0, q_version = \<lparr>vid_version = 5, vid_index = 0\<rparr>, q_alive = True\<rparr>],
           m_async_error := Some OpenFailed\<rparr>)
      = Inr (RealmCoordinator_new
          \<lparr>m_queries := [\<lparr>q_id = 0, q_version = \<lparr>vid_version = 5, vid_index = 0\<rparr>, q_alive = True\<rparr>],
           m_async_error := Some OpenFailed\<rparr>)"
proof -
  let ?c = "RealmCoordinator_new
       \<lparr>m_new_queries := [\<lparr>q_id = 0, q_version = \<lparr>vid_version = 5, vid_index = 0\<rparr>, q_alive = True\<rparr>],
        m_async_error := Some OpenFailed\<rparr>"
  let ?st = "\<lparr>open_outcome = Opened, latest_version = \<lparr>vid_version = 6, vid_index = 0\<rparr>, pending_log = []\<rparr>"
  have h: "m_async_error ?c = Some OpenFailed"
    by simp
  have v: "move_new_queries_to_main (clean_up_dead_queries ?c)
      = RealmCoordinator_new
          \<lparr>m_queries := [\<lparr>q_id = 0, q_version = \<lparr>vid_version = 5, vid_index = 0\<rparr>, q_alive = True\<rparr>],
           m_async_error := Some OpenFailed\<rparr>"
    by code_simp
  from async_error_is_sticky[of ?c OpenFailed ?st "\<lparr>vid_version = 6, vid_index = 0\<rparr>" QueryOps_inert] h
  have "pin_version ?st \<lparr>vid_version = 6, vid_index = 0\<rparr> ?c = Inr ?c"
    and "run_async_queries ?st QueryOps_inert ?c = Inr (move_new_queries_to_main (clean_up_dead_queries ?c))"
    by blast+
  with h v show ?thesis by simp
qed

lemma swap_remove_did_remove:
  "fst (snd (swap_remove xs)) = (\<exists>q \<in> set xs. \<not> q_alive q)"
  by (simp add: swap_remove_def swap_remove_from_did_remove)

lemma swap_remove_released:
  "mset (snd (snd (swap_remove xs))) = image_mset q_id (filter_mset (\<lambda>q. \<not> q_alive q) (mset xs))"
  by (simp add: swap_remove_def swap_remove_from_released)

lemma swap_remove_empty:
  "(fst (swap_remove xs) = []) = (\<forall>q \<in> set xs. \<not> q_alive q)"
proof -
  have "(fst (swap_remove xs) = []) = (mset (fst (swap_remove xs)) = {#})"
    by simp
  also have "\<dots> = (filter_mset q_alive (mset xs) = {#})"
    by (simp only: swap_remove_mset)
  also have "\<dots> = (\<forall>q \<in> set xs. \<not> q_alive q)"
    by auto
  finally show ?thesis .
qed

text \<open>
  What one sweep does: the dead queries of both lists are released, the live ones
  stay, and a helper snapshot's read is ended when the sweep removed the last entries
  of its list.
\<close>

lemma clean_up_dead_queries_sweeps:
  "mset (m_queries (clean_up_dead_queries c)) = filter_mset q_alive (mset (m_queries c))
   \<and> mset (m_new_queries (clean_up_dead_queries c)) = filter_mset q_alive (mset (m_new_queries c))
   \<and> (\<exists>extra. calls (clean_up_dead_queries c) = calls c @ extra
        \<and> mset (filter (\<lambda>x. \<exists>k. x = ReleaseQuery k) extra)
            = image_mset (\<lambda>q. ReleaseQuery (q_id q))
                (filter_mset (\<lambda>q. \<not> q_alive q) (mset (m_queries c) + mset (m_new_queries c))))
   \<and> (m_queries c \<noteq> [] \<and> (\<forall>q \<in> set (m_queries c). \<not> q_alive q)
        \<longrightarrow> m_query_sg (clean_up_dead_queries c) = map_option end_read (m_query_sg c))
   \<and> (m_new_queries c \<noteq> [] \<and> (\<forall>q \<in> set (m_new_queries c). \<not> q_alive q)
        \<longrightarrow> m_advancer_sg (clean_up_dead_queries c) = map_option end_read (m_advancer_sg c))"
proof (intro conjI impI)
  show "mset (m_queries (clean_up_dead_queries c)) = filter_mset q_alive (mset (m_queries c))"
    by (rule clean_up_queries)
  show "mset (m_new_queries (clean_up_dead_queries c)) = filter_mset q_alive (mset (m_new_queries c))"
    by (rule clean_up_new_queries)
next
  let ?r1 = "snd (snd (swap_remove (m_queries c)))"
  let ?r2 = "snd (snd (swap_remove (m_new_queries c)))"
  define e1 where "e1 = (if fst (snd (swap_remove (m_queries c)))
        \<and> fst (swap_remove (m_queries c)) = [] \<and> m_query_sg c \<noteq> None
      then [EndRead QuerySG] else [])"
  define e2 where "e2 = (if fst (snd (swap_remove (m_new_queries c)))
        \<and> fst (swap_remove (m_new_queries c)) = [] \<and> m_advancer_sg c \<noteq> None
      then [EndRead AdvancerSG] else [])"
  have e: "calls (clean_up_dead_queries c) = calls c @ (map ReleaseQuery ?r1 @ e1 @ map ReleaseQuery ?r2 @ e2)"
       "set e1 \<subseteq> {EndRead QuerySG}" "set e2 \<subseteq> {EndRead AdvancerSG}"
    by (auto simp: clean_up_dead_queries_def Let_def called_def case_prod_beta e1_def e2_def)
  have f1: "filter (\<lambda>x. \<exists>k. x = ReleaseQuery k) e1 = []"
    using e(2) by (auto simp: filter_empty_conv)
  have f2: "filter (\<lambda>x. \<exists>k. x = ReleaseQuery k) e2 = []"
    using e(3) by (auto simp: filter_empty_conv)
  have f3: "filter (\<lambda>x. \<exists>k. x = ReleaseQuery k) (map ReleaseQuery xs) = map ReleaseQuery xs" for xs
    by (induction xs) auto
  have "mset (filter (\<lambda>x. \<exists>k. x = ReleaseQuery k) (map ReleaseQuery ?r1 @ e1 @ map ReleaseQuery ?r2 @ e2))
      = image_mset ReleaseQuery (mset ?r1) + image_mset ReleaseQuery (mset ?r2)"
    by (simp add: f1 f2 f3)
  also have "\<dots> = image_mset (\<lambda>q. ReleaseQuery (q_id q))
                (filter_mset (\<lambda>q. \<not> q_alive q) (mset (m_queries c) + mset (m_new_queries c)))"
    by (simp add: swap_remove_released image_mset.compositionality comp_def)
  finally show "\<exists>extra. calls (clean_up_dead_queries c) = calls c @ extra
        \<and> mset (filter (\<lambda>x. \<exists>k. x = ReleaseQuery k) extra)
            = image_mset (\<lambda>q. ReleaseQuery (q_id q))
                (filter_mset (\<lambda>q. \<not> q_alive q) (mset (m_queries c) + mset (m_new_queries c)))"
    using e(1) by blast
next
  assume a: "m_queries c \<noteq> [] \<and> (\<forall>q \<in> set (m_queries c). \<not> q_alive q)"
  then have "\<exists>q \<in> set (m_queries c). \<not> q_alive q"
    by (cases "m_queries c") auto
  with a have "fst (swap_remove (m_queries c)) = []" "fst (snd (swap_remove (m_queries c)))"
    by (simp_all add: swap_remove_empty swap_remove_did_remove)
  then show "m_query_sg (clean_up_dead_queries c) = map_option end_read (m_query_sg c)"
    by (cases "m_query_sg c")
       (simp_all add: clean_up_dead_queries_def Let_def called_def case_prod_beta end_read_if_def)
next
  assume a: "m_new_queries c \<noteq> [] \<and> (\<forall>q \<in> set (m_new_queries c). \<not> q_alive q)"
  then have "\<exists>q \<in> set (m_new_queries c). \<not> q_alive q"
    by (cases "m_new_queries c") auto
  with a have "fst (swap_remove (m_new_queries c)) = []" "fst (snd (swap_remove (m_new_queries c)))"
    by (simp_all add: swap_remove_empty swap_remove_did_remove)
  then show "m_advancer_sg (clean_up_dead_queries c) = map_option end_read (m_advancer_sg c)"
    by (cases "m_advancer_sg c")
       (simp_all add: clean_up_dead_queries_def Let_def called_def case_prod_beta end_read_if_def)
qed

text \<open>
  Claim C8. \<open>clean_up_dead_queries\<close> removes the dead queries of both lists, releases
  each, and ends the read of a helper snapshot when the removal empties its list; the
  claim adds that helper snapshots are released whenever both lists are empty. The
  last part fails on the path taken after a failed open of the query snapshot: a query
  is registered (the advancer snapshot opens and begins a read), the next \<open>on_change\<close>
  fails to open the query snapshot and moves the query to \<open>m_queries\<close> without ending
  the advancer's read, the query dies, and the next \<open>on_change\<close> sweeps it from
  \<open>m_queries\<close>. Both lists are then empty and the advancer snapshot still holds its
  read.
\<close>

theorem advancer_read_outlives_queries:
  "perform_all QueryOps_inert
     [(\<lparr>open_outcome = Opened, latest_version = \<lparr>vid_version = 5, vid_index = 0\<rparr>, pending_log = []\<rparr>,
       RegisterQuery \<lparr>q_id = 0, q_version = \<lparr>vid_version = 5, vid_index = 0\<rparr>, q_alive = True\<rparr>),
      (\<lparr>open_outcome = OpenThrew, latest_version = \<lparr>vid_version = 5, vid_index = 0\<rparr>, pending_log = []\<rparr>,
       OnChange),
      (\<lparr>open_outcome = Opened, latest_version = \<lparr>vid_version = 5, vid_index = 0\<rparr>, pending_log = []\<rparr>,
       QueryDies 0),
      (\<lparr>open_outcome = Opened, latest_version = \<lparr>vid_version = 5, vid_index = 0\<rparr>, pending_log = []\<rparr>,
       OnChange)]
     RealmCoordinator_new
   = Inr (RealmCoordinator_new
       \<lparr>m_queries := [], m_new_queries := [],
        m_advancer_sg := Some \<lparr>sg_version = \<lparr>vid_version = 5, vid_index = 0\<rparr>, sg_reading = True\<rparr>,
        m_async_error := Some OpenFailed,
        calls := [OpenSG AdvancerSG, BeginRead AdvancerSG (Some \<lparr>vid_version = 5, vid_index = 0\<rparr>),
                  OpenSG QuerySG, ReleaseQuery 0]\<rparr>)"
  by code_simp

subsection \<open>Delivering to a handle\<close>

lemma first_version_unpinned:
  "\<forall>q \<in> set qs. \<not> pinned q \<Longrightarrow> vid_version v = 0 \<Longrightarrow> vid_version (first_version v qs) = 0"
  by (induction qs arbitrary: v) (auto simp: pinned_def vid_differs_def VersionID_default_def)

lemma first_version_pinned:
  "find pinned qs = Some q \<Longrightarrow> first_version v qs = q_version q"
  by (induction qs arbitrary: v) (auto simp: pinned_def split: if_splits)

lemma find_pinned_nonzero: "find pinned qs = Some q \<Longrightarrow> vid_version (q_version q) \<noteq> 0"
  by (auto simp: find_Some_iff pinned_def vid_differs_def VersionID_default_def)

lemma fold_min_le: "fold min vs (v::64 word) \<le> v"
proof (induction vs arbitrary: v)
  case Nil
  then show ?case by simp
next
  case (Cons a vs)
  have "fold min vs (min a v) \<le> min a v" by (rule Cons.IH)
  also have "min a v \<le> v" by simp
  finally show ?case by simp
qed

lemma fold_min_lower: "(\<forall>x \<in> set vs. (a::64 word) \<le> x) \<Longrightarrow> a \<le> v \<Longrightarrow> a \<le> fold min vs v"
  by (induction vs arbitrary: v) auto

lemma oldest_pinned_first:
  assumes "find pinned qs = Some q"
    and "\<forall>p \<in> set qs. pinned p \<longrightarrow> vid_version (q_version q) \<le> vid_version (q_version p)"
  shows "oldest_pinned_version qs = Some (vid_version (q_version q))"
proof -
  from assms(1) obtain rest where f: "filter pinned qs = q # rest"
    by (induction qs) (auto split: if_splits)
  have "set rest \<subseteq> set (filter pinned qs)" using f by auto
  with assms(2) have "\<forall>x \<in> set (map (\<lambda>q. vid_version (q_version q)) rest). vid_version (q_version q) \<le> x"
    by auto
  from fold_min_lower[OF this, of "vid_version (q_version q)"]
    fold_min_le[of "map (\<lambda>q. vid_version (q_version q)) rest" "vid_version (q_version q)"]
  have "fold min (map (\<lambda>q. vid_version (q_version q)) rest) (vid_version (q_version q)) = vid_version (q_version q)"
    by simp
  with f show ?thesis by (simp add: oldest_pinned_version_def)
qed

text \<open>
  Claim C5, as stated: \<open>advance_to_ready\<close> never advances the handle past the oldest
  pinned version among the live queries. It fails: the loop takes the first pinned
  version in list order. After two queries are registered at versions 5 and 3 and the
  query snapshot fails to open, \<open>m_queries\<close> holds them in this order, and a handle at
  version 3 is advanced to version 5.
\<close>

theorem advance_to_ready_counterexample:
  "perform_all QueryOps_inert
     [(\<lparr>open_outcome = Opened, latest_version = \<lparr>vid_version = 5, vid_index = 0\<rparr>, pending_log = []\<rparr>,
       RegisterQuery \<lparr>q_id = 0, q_version = \<lparr>vid_version = 5, vid_index = 0\<rparr>, q_alive = True\<rparr>),
      (\<lparr>open_outcome = Opened, latest_version = \<lparr>vid_version = 5, vid_index = 0\<rparr>, pending_log = []\<rparr>,
       RegisterQuery \<lparr>q_id = 1, q_version = \<lparr>vid_version = 3, vid_index = 0\<rparr>, q_alive = True\<rparr>),
      (\<lparr>open_outcome = OpenThrew, latest_version = \<lparr>vid_version = 5, vid_index = 0\<rparr>, pending_log = []\<rparr>,
       RunAsyncQueries)]
     RealmCoordinator_new
   = Inr (RealmCoordinator_new
       \<lparr>m_queries := [\<lparr>q_id = 0, q_version = \<lparr>vid_version = 5, vid_index = 0\<rparr>, q_alive = True\<rparr>,
                      \<lparr>q_id = 1, q_version = \<lparr>vid_version = 3, vid_index = 0\<rparr>, q_alive = True\<rparr>],
        m_advancer_sg := Some \<lparr>sg_version = \<lparr>vid_version = 3, vid_index = 0\<rparr>, sg_reading = True\<rparr>,
        m_async_error := Some OpenFailed,
        calls := [OpenSG AdvancerSG, BeginRead AdvancerSG (Some \<lparr>vid_version = 5, vid_index = 0\<rparr>),
                  EndRead AdvancerSG, BeginRead AdvancerSG (Some \<lparr>vid_version = 3, vid_index = 0\<rparr>),
                  OpenSG QuerySG]\<rparr>)
   \<and> oldest_pinned_version
        [\<lparr>q_id = 0, q_version = \<lparr>vid_version = 5, vid_index = 0\<rparr>, q_alive = True\<rparr>,
         \<lparr>q_id = 1, q_version = \<lparr>vid_version = 3, vid_index = 0\<rparr>, q_alive = True\<rparr>] = Some 3
   \<and> fst (advance_to_ready
        \<lparr>open_outcome = Opened, latest_version = \<lparr>vid_version = 5, vid_index = 0\<rparr>, pending_log = []\<rparr>
        QueryOps_inert
        \<lparr>realm_id = 1, realm_version = \<lparr>vid_version = 3, vid_index = 0\<rparr>\<rparr>
        (RealmCoordinator_new
          \<lparr>m_queries := [\<lparr>q_id = 0, q_version = \<lparr>vid_version = 5, vid_index = 0\<rparr>, q_alive = True\<rparr>,
                         \<lparr>q_id = 1, q_version = \<lparr>vid_version = 3, vid_index = 0\<rparr>, q_alive = True\<rparr>],
           m_advancer_sg := Some \<lparr>sg_version = \<lparr>vid_version = 3, vid_index = 0\<rparr>, sg_reading = True\<rparr>,
           m_async_error := Some OpenFailed,
           calls := [OpenSG AdvancerSG, BeginRead AdvancerSG (Some \<lparr>vid_version = 5, vid_index = 0\<rparr>),
                     EndRead AdvancerSG, BeginRead AdvancerSG (Some \<lparr>vid_version = 3, vid_index = 0\<rparr>),
                     OpenSG QuerySG]\<rparr>))
      = \<lparr>realm_id = 1, realm_version = \<lparr>vid_version = 5, vid_index = 0\<rparr>\<rparr>"
  by code_simp

text \<open>
  Claim C5, amended. The target of \<open>advance_to_ready\<close> is the version of the first
  query of \<open>m_queries\<close>, in list order, whose version is not the sentinel. If no query
  has such a version, the handle is advanced to the latest committed version and
  nothing is delivered. If the target precedes the handle's version, nothing changes.
  Otherwise the handle is advanced exactly to the target and \<open>deliver\<close> is called on
  every query. Where no pinned version in the list is older than the first, the target
  is the oldest pinned version, and the handle is left alone or ends exactly there.
  \<open>process_available_async\<close> leaves the handle's version as it is.
\<close>

theorem advance_to_ready_target:
  "((\<forall>q \<in> set (m_queries c). \<not> pinned q) \<longrightarrow>
       advance_to_ready st ops realm c =
         (realm\<lparr>realm_version := latest_version st\<rparr>, called [AdvanceHandle None] c))
   \<and> (find pinned (m_queries c) = Some q \<and> vid_less (q_version q) (realm_version realm) \<longrightarrow>
       advance_to_ready st ops realm c = (realm, c))
   \<and> (find pinned (m_queries c) = Some q \<and> \<not> vid_less (q_version q) (realm_version realm) \<longrightarrow>
       fst (advance_to_ready st ops realm c) = realm\<lparr>realm_version := q_version q\<rparr>
       \<and> m_queries (snd (advance_to_ready st ops realm c)) =
           map (\<lambda>x. snd (deliver ops (q_version q) (m_async_error c) x)) (m_queries c))
   \<and> (find pinned (m_queries c) = Some q
       \<and> (\<forall>p \<in> set (m_queries c). pinned p \<longrightarrow> vid_version (q_version q) \<le> vid_version (q_version p)) \<longrightarrow>
       oldest_pinned_version (m_queries c) = Some (vid_version (q_version q))
       \<and> (fst (advance_to_ready st ops realm c) = realm
           \<or> oldest_pinned_version (m_queries c)
               = Some (vid_version (realm_version (fst (advance_to_ready st ops realm c))))))
   \<and> fst (process_available_async ops realm c) = realm"
proof (intro conjI impI)
  assume "\<forall>q \<in> set (m_queries c). \<not> pinned q"
  from first_version_unpinned[OF this, of VersionID_default]
  show "advance_to_ready st ops realm c =
         (realm\<lparr>realm_version := latest_version st\<rparr>, called [AdvanceHandle None] c)"
    by (simp add: advance_to_ready_def VersionID_default_def transaction_advance_def)
next
  assume a: "find pinned (m_queries c) = Some q \<and> vid_less (q_version q) (realm_version realm)"
  with first_version_pinned[of "m_queries c" q VersionID_default] find_pinned_nonzero[of "m_queries c" q]
  show "advance_to_ready st ops realm c = (realm, c)"
    by (simp add: advance_to_ready_def)
next
  assume a: "find pinned (m_queries c) = Some q \<and> \<not> vid_less (q_version q) (realm_version realm)"
  with first_version_pinned[of "m_queries c" q VersionID_default] find_pinned_nonzero[of "m_queries c" q]
  show "fst (advance_to_ready st ops realm c) = realm\<lparr>realm_version := q_version q\<rparr>"
    by (simp add: advance_to_ready_def Let_def transaction_advance_def)
  from a first_version_pinned[of "m_queries c" q VersionID_default] find_pinned_nonzero[of "m_queries c" q]
  show "m_queries (snd (advance_to_ready st ops realm c)) =
           map (\<lambda>x. snd (deliver ops (q_version q) (m_async_error c) x)) (m_queries c)"
    by (simp add: advance_to_ready_def Let_def called_def transaction_advance_def)
next
  assume a: "find pinned (m_queries c) = Some q
       \<and> (\<forall>p \<in> set (m_queries c). pinned p \<longrightarrow> vid_version (q_version q) \<le> vid_version (q_version p))"
  then show o: "oldest_pinned_version (m_queries c) = Some (vid_version (q_version q))"
    using oldest_pinned_first[of "m_queries c" q] by blast
  from a first_version_pinned[of "m_queries c" q VersionID_default] find_pinned_nonzero[of "m_queries c" q]
  have "fst (advance_to_ready st ops realm c) = realm
        \<or> vid_version (realm_version (fst (advance_to_ready st ops realm c))) = vid_version (q_version q)"
    by (simp add: advance_to_ready_def Let_def transaction_advance_def)
  with o show "fst (advance_to_ready st ops realm c) = realm
           \<or> oldest_pinned_version (m_queries c)
               = Some (vid_version (realm_version (fst (advance_to_ready st ops realm c))))"
    by auto
next
  show "fst (process_available_async ops realm c) = realm"
    by (simp add: process_available_async_def Let_def)
qed

theorem advance_to_ready_target_witness:
  "find pinned [\<lparr>q_id = 0, q_version = VersionID_default, q_alive = True\<rparr>,
                \<lparr>q_id = 1, q_version = \<lparr>vid_version = 3, vid_index = 0\<rparr>, q_alive = True\<rparr>,
                \<lparr>q_id = 2, q_version = \<lparr>vid_version = 5, vid_index = 0\<rparr>, q_alive = True\<rparr>]
     = Some \<lparr>q_id = 1, q_version = \<lparr>vid_version = 3, vid_index = 0\<rparr>, q_alive = True\<rparr>
   \<and> \<not> vid_less \<lparr>vid_version = 3, vid_index = 0\<rparr> \<lparr>vid_version = 2, vid_index = 0\<rparr>
   \<and> fst (advance_to_ready
        \<lparr>open_outcome = Opened, latest_version = \<lparr>vid_version = 7, vid_index = 0\<rparr>, pending_log = []\<rparr>
        QueryOps_inert
        \<lparr>realm_id = 1, realm_version = \<lparr>vid_version = 2, vid_index = 0\<rparr>\<rparr>
        (RealmCoordinator_new
          \<lparr>m_queries := [\<lparr>q_id = 0, q_version = VersionID_default, q_alive = True\<rparr>,
                \<lparr>q_id = 1, q_version = \<lparr>vid_version = 3, vid_index = 0\<rparr>, q_alive = True\<rparr>,
                \<lparr>q_id = 2, q_version = \<lparr>vid_version = 5, vid_index = 0\<rparr>, q_alive = True\<rparr>]\<rparr>))
      = \<lparr>realm_id = 1, realm_version = \<lparr>vid_version = 3, vid_index = 0\<rparr>\<rparr>
   \<and> oldest_pinned_version [\<lparr>q_id = 0, q_version = VersionID_default, q_alive = True\<rparr>,
                \<lparr>q_id = 1, q_version = \<lparr>vid_version = 3, vid_index = 0\<rparr>, q_alive = True\<rparr>,
                \<lparr>q_id = 2, q_version = \<lparr>vid_version = 5, vid_index = 0\<rparr>, q_alive = True\<rparr>]
      = Some 3"
proof -
  let ?qs = "[\<lparr>q_id = 0, q_version = VersionID_default, q_alive = True\<rparr>,
                \<lparr>q_id = 1, q_version = \<lparr>vid_version = 3, vid_index = 0\<rparr>, q_alive = True\<rparr>,
                \<lparr>q_id = 2, q_version = \<lparr>vid_version = 5, vid_index = 0\<rparr>, q_alive = True\<rparr>]"
  let ?q = "\<lparr>q_id = 1, q_version = \<lparr>vid_version = 3, vid_index = 0\<rparr>, q_alive = True\<rparr>"
  let ?c = "RealmCoordinator_new\<lparr>m_queries := ?qs\<rparr>"
  let ?st = "\<lparr>open_outcome = Opened, latest_version = \<lparr>vid_version = 7, vid_index = 0\<rparr>, pending_log = []\<rparr>"
  let ?r = "\<lparr>realm_id = 1, realm_version = \<lparr>vid_version = 2, vid_index = 0\<rparr>\<rparr>"
  have q: "m_queries ?c = ?qs" by simp
  have h1: "find pinned (m_queries ?c) = Some ?q"
    unfolding q by code_simp
  have h2: "\<not> vid_less (q_version ?q) (realm_version ?r)"
    by code_simp
  have h3: "\<forall>p \<in> set (m_queries ?c). pinned p \<longrightarrow> vid_version (q_version ?q) \<le> vid_version (q_version p)"
    unfolding q by code_simp
  from advance_to_ready_target[of ?c ?st QueryOps_inert ?r ?q] h1 h2 h3
  have a: "fst (advance_to_ready ?st QueryOps_inert ?r ?c) = ?r\<lparr>realm_version := q_version ?q\<rparr>"
    and b: "oldest_pinned_version (m_queries ?c) = Some (vid_version (q_version ?q))"
    by blast+
  from h1 h2 a b show ?thesis by (simp add: vid_less_def)
qed

end
